theory Spec2Isabelle
  imports Complex_Main "HOL-Library.Log_Nat"
begin

section \<open>Python values: text, bytes and exceptions\<close>

text \<open>
  The module \<^verbatim>\<open>pycoolmasternet_async/coolmasternet.py\<close> talks to a CoolMasterNet bridge
  over TCP.  Text (\<^verbatim>\<open>str\<close>) and wire data (\<^verbatim>\<open>bytes\<close>) are both lists of characters
  here; a character is a code point below 256, and the text that comes off the wire is
  ASCII because the transaction decodes it as such.
\<close>

type_synonym bytes = "char list"

abbreviation CR :: char where "CR \<equiv> CHR 0x0D"
abbreviation LF :: char where "LF \<equiv> CHR 0x0A"

text \<open>
  The exceptions that leave the module.  \<^verbatim>\<open>ConnectionError\<close> and \<^verbatim>\<open>ValueError\<close> are
  the two classes the module raises itself; their argument records the message.  A
  message that embeds \<^verbatim>\<open>str(fields)\<close> or \<^verbatim>\<open>repr(s)\<close> keeps the value that Python renders.
\<close>

datatype connection_error =
    PromptNotFound
      \<comment> \<open>\<^verbatim>\<open>ConnectionError("CoolMasterNet prompt not found")\<close>, line 41\<close>
  | UnexpectedStatusLineFormat "string list"
      \<comment> \<open>\<^verbatim>\<open>ConnectionError("Unexpected status line format: " + str(fields))\<close>, line 96\<close>

datatype value_error =
    Message string
      \<comment> \<open>a \<^verbatim>\<open>ValueError\<close> raised by the module, with its formatted message\<close>
  | CouldNotConvertToFloat string
      \<comment> \<open>raised by \<^verbatim>\<open>float(s)\<close>: could not convert string to float: \<^verbatim>\<open>repr(s)\<close>\<close>
  | DictUpdateSequenceLength nat nat
      \<comment> \<open>raised by \<^verbatim>\<open>dict(pairs)\<close>: element \<^verbatim>\<open>#i\<close> has length \<^verbatim>\<open>n\<close>; 2 is required\<close>

datatype pyerror =
    ConnectionError connection_error
  | ValueError value_error
  | TimeoutError
      \<comment> \<open>raised by \<^verbatim>\<open>asyncio.wait_for\<close> when the deadline passes\<close>
  | IncompleteReadError
      \<comment> \<open>raised by \<^verbatim>\<open>readuntil\<close> when the stream ends before the separator\<close>
  | LimitOverrunError
      \<comment> \<open>raised by \<^verbatim>\<open>readuntil\<close> when the separator lies beyond the buffer limit\<close>
  | OSError
      \<comment> \<open>raised by \<^verbatim>\<open>asyncio.open_connection\<close> or while the connection closes\<close>
  | UnicodeDecodeError
  | UnicodeEncodeError
  | IndexError
  | KeyError

subsection \<open>String methods\<close>

definition is_space :: "char \<Rightarrow> bool" where
  \<comment> \<open>\<^verbatim>\<open>str.isspace\<close> and the regular expression class \<^verbatim>\<open>\s\<close> on code points below 256\<close>
  "is_space c =
     (let n = (of_char c :: nat)
      in (9 \<le> n \<and> n \<le> 13) \<or> (28 \<le> n \<and> n \<le> 32) \<or> n = 133 \<or> n = 160)"

definition lstrip :: "string \<Rightarrow> string" where
  "lstrip s = dropWhile is_space s"

definition rstrip :: "string \<Rightarrow> string" where
  "rstrip s = rev (dropWhile is_space (rev s))"

definition strip :: "string \<Rightarrow> string" where
  \<comment> \<open>\<^verbatim>\<open>s.strip()\<close>\<close>
  "strip s = rstrip (lstrip s)"

definition startswith :: "string \<Rightarrow> string \<Rightarrow> bool" where
  \<comment> \<open>\<^verbatim>\<open>s.startswith(p)\<close>\<close>
  "startswith s p = (take (length p) s = p)"

definition endswith :: "string \<Rightarrow> string \<Rightarrow> bool" where
  \<comment> \<open>\<^verbatim>\<open>s.endswith(p)\<close>\<close>
  "endswith s p = (length p \<le> length s \<and> drop (length s - length p) s = p)"

definition drop_last :: "nat \<Rightarrow> string \<Rightarrow> string" where
  \<comment> \<open>the slice \<^verbatim>\<open>s[:-n]\<close> for \<^verbatim>\<open>n > 0\<close>; it is empty when \<^verbatim>\<open>s\<close> has fewer than \<^verbatim>\<open>n\<close> characters\<close>
  "drop_last n s = take (length s - n) s"

definition lower_char :: "char \<Rightarrow> char" where
  \<comment> \<open>\<^verbatim>\<open>str.lower\<close> on one code point below 256: A-Z, and the Latin-1 capitals but U+00D7\<close>
  "lower_char c =
     (let n = (of_char c :: nat)
      in if (65 \<le> n \<and> n \<le> 90) \<or> (192 \<le> n \<and> n \<le> 222 \<and> n \<noteq> 215)
         then char_of (n + 32) else c)"

definition lower :: "string \<Rightarrow> string" where
  "lower s = map lower_char s"

fun join :: "string \<Rightarrow> string list \<Rightarrow> string" where
  \<comment> \<open>\<^verbatim>\<open>sep.join(xs)\<close>\<close>
  "join sep [] = []"
| "join sep [x] = x"
| "join sep (x # y # ys) = x @ sep @ join sep (y # ys)"

fun split_at :: "string \<Rightarrow> string \<Rightarrow> string \<Rightarrow> string list" where
  \<comment> \<open>\<^verbatim>\<open>split_at sep cur s\<close>: the pieces of \<^verbatim>\<open>s\<close> between the occurrences of \<^verbatim>\<open>sep\<close>, found
      from the left and not overlapping; \<^verbatim>\<open>cur\<close> is the piece being read, reversed\<close>
  "split_at sep cur [] = [rev cur]"
| "split_at sep cur (c # cs) =
     (if sep \<noteq> [] \<and> take (length sep) (c # cs) = sep
      then rev cur # split_at sep [] (drop (length sep) (c # cs))
      else split_at sep (c # cur) cs)"

definition split :: "string \<Rightarrow> string \<Rightarrow> string list" where
  \<comment> \<open>\<^verbatim>\<open>s.split(sep)\<close> for a non-empty separator\<close>
  "split s sep = split_at sep [] s"

fun replace_at :: "string \<Rightarrow> string \<Rightarrow> string \<Rightarrow> string" where
  \<comment> \<open>\<^verbatim>\<open>replace_at old new s\<close>: every occurrence of the non-empty \<^verbatim>\<open>old\<close>, found from the left
      and not overlapping, becomes \<^verbatim>\<open>new\<close>\<close>
  "replace_at old new [] = []"
| "replace_at old new (c # cs) =
     (if old \<noteq> [] \<and> take (length old) (c # cs) = old
      then new @ replace_at old new (drop (length old) (c # cs))
      else c # replace_at old new cs)"

definition replace :: "string \<Rightarrow> string \<Rightarrow> string \<Rightarrow> string" where
  \<comment> \<open>\<^verbatim>\<open>s.replace(old, new)\<close> for a non-empty \<^verbatim>\<open>old\<close>\<close>
  "replace s old new = replace_at old new s"

definition is_ascii :: "char list \<Rightarrow> bool" where
  "is_ascii s = list_all (\<lambda>c. (of_char c :: nat) < 128) s"

definition decode_ascii :: "bytes \<Rightarrow> pyerror + string" where
  \<comment> \<open>\<^verbatim>\<open>b.decode("ascii")\<close>\<close>
  "decode_ascii b = (if is_ascii b then Inr b else Inl UnicodeDecodeError)"

definition encode_ascii :: "string \<Rightarrow> pyerror + bytes" where
  \<comment> \<open>\<^verbatim>\<open>s.encode("ascii")\<close>\<close>
  "encode_ascii s = (if is_ascii s then Inr s else Inl UnicodeEncodeError)"

subsection \<open>Regular expression splits\<close>

function re_split_space :: "string \<Rightarrow> string \<Rightarrow> string list" where
  \<comment> \<open>\<^verbatim>\<open>re_split_space cur s\<close>: the pieces between the maximal runs of whitespace of \<^verbatim>\<open>s\<close>;
      \<^verbatim>\<open>cur\<close> is the piece being read, reversed\<close>
  "re_split_space cur [] = [rev cur]"
| "re_split_space cur (c # cs) =
     (if is_space c then rev cur # re_split_space [] (dropWhile is_space cs)
      else re_split_space (c # cur) cs)"
  by pat_completeness auto
termination
  by (relation "measure (\<lambda>(cur, s). length s)")
     (auto simp: le_imp_less_Suc length_dropWhile_le)

definition re_split_whitespace :: "string \<Rightarrow> string list" where
  \<comment> \<open>\<^verbatim>\<open>re.split(r"\s+", s)\<close>\<close>
  "re_split_whitespace s = re_split_space [] s"

definition re_split_colon_once :: "string \<Rightarrow> string list" where
  \<comment> \<open>\<^verbatim>\<open>re.split(r"\s*:\s*", s, 1)\<close>: the leftmost match ends at the first colon and starts
      where the whitespace before that colon starts; it takes all whitespace after the
      colon.  A string with no colon comes back whole.\<close>
  "re_split_colon_once s =
     (let key = takeWhile (\<lambda>c. c \<noteq> CHR '':'') s;
          rest = dropWhile (\<lambda>c. c \<noteq> CHR '':'') s
      in case rest of
           [] \<Rightarrow> [s]
         | colon # after \<Rightarrow> [rstrip key, lstrip after])"

subsection \<open>Dictionaries\<close>

fun dict_update :: "nat \<Rightarrow> (string \<rightharpoonup> string) \<Rightarrow> string list list \<Rightarrow> pyerror + (string \<rightharpoonup> string)" where
  \<comment> \<open>\<^verbatim>\<open>dict(seq)\<close> element by element from index \<^verbatim>\<open>i\<close>: a later key overwrites an earlier
      one, and an element that is not a pair raises\<close>
  "dict_update i m [] = Inr m"
| "dict_update i m (kv # rest) =
     (case kv of
        [k, v] \<Rightarrow> dict_update (Suc i) (m(k \<mapsto> v)) rest
      | _ \<Rightarrow> Inl (ValueError (DictUpdateSequenceLength i (length kv))))"

definition dict :: "string list list \<Rightarrow> pyerror + (string \<rightharpoonup> string)" where
  "dict key_values = dict_update 0 Map.empty key_values"

section \<open>The built-in float\<close>

text \<open>
  A Python \<^verbatim>\<open>float\<close> is an IEEE 754 binary64 number.  Its finite values are rationals, so
  a finite float is written as the rational it is; \<^verbatim>\<open>-0.0\<close>, the infinities and
  not-a-number stand beside them.
\<close>

datatype pyfloat = Finite rat | NegZero | PosInf | NegInf | NaN

definition pow2 :: "int \<Rightarrow> rat" where
  "pow2 k = (if 0 \<le> k then 2 ^ nat k else 1 / 2 ^ nat (- k))"

definition round_half_even_div :: "int \<Rightarrow> int \<Rightarrow> int" where
  \<comment> \<open>the integer nearest to \<^verbatim>\<open>p / q\<close> (\<^verbatim>\<open>q > 0\<close>), the even one of two that are equally near\<close>
  "round_half_even_div p q =
     (let n = p div q; r = p mod q
      in if 2 * r < q then n
         else if q < 2 * r then n + 1
         else if even n then n else n + 1)"

definition floor_log2 :: "int \<Rightarrow> int \<Rightarrow> int" where
  \<comment> \<open>for positive \<^verbatim>\<open>p\<close> and \<^verbatim>\<open>q\<close>, the exponent \<^verbatim>\<open>e\<close> with \<^verbatim>\<open>2^e \<le> p / q < 2^(e+1)\<close>\<close>
  "floor_log2 p q =
     (let d = int (floorlog 2 (nat p)) - int (floorlog 2 (nat q))
      in if (if 0 \<le> d then q * 2 ^ nat d \<le> p else q \<le> p * 2 ^ nat (- d)) then d else d - 1)"

definition binary64 :: "int \<Rightarrow> int \<Rightarrow> pyfloat" where
  \<comment> \<open>the binary64 number nearest to \<^verbatim>\<open>p / q\<close> (\<^verbatim>\<open>p \<ge> 0\<close>, \<^verbatim>\<open>q > 0\<close>), ties to even: 53
      significant bits, exponents from -1022 (below that, subnormal steps of \<^verbatim>\<open>2^-1074\<close>)
      to 1023 (above that, infinity)\<close>
  "binary64 p q =
     (if p = 0 then Finite 0
      else let e = max (floor_log2 p q) (- 1022);
               k = e - 52;
               m = (if 0 \<le> k then round_half_even_div p (q * 2 ^ nat k)
                    else round_half_even_div (p * 2 ^ nat (- k)) q);
               r = of_int m * pow2 k
           in if pow2 1024 \<le> r then PosInf else Finite r)"

definition negate :: "pyfloat \<Rightarrow> pyfloat" where
  "negate x =
     (case x of
        Finite r \<Rightarrow> if r = 0 then NegZero else Finite (- r)
      | NegZero \<Rightarrow> Finite 0
      | PosInf \<Rightarrow> NegInf
      | NegInf \<Rightarrow> PosInf
      | NaN \<Rightarrow> NaN)"

definition is_digit :: "char \<Rightarrow> bool" where
  "is_digit c = (let n = (of_char c :: nat) in 48 \<le> n \<and> n \<le> 57)"

definition digits_value :: "string \<Rightarrow> int" where
  "digits_value ds = foldl (\<lambda>a c. 10 * a + ((of_char c :: int) - 48)) 0 ds"

fun remove_underscores :: "char \<Rightarrow> string \<Rightarrow> string option" where
  \<comment> \<open>an underscore is allowed between two digits only; \<^verbatim>\<open>prev\<close> is the character before\<close>
  "remove_underscores prev [] = (if prev = CHR ''_'' then None else Some [])"
| "remove_underscores prev (c # cs) =
     (if c = CHR ''_'' then
        (if is_digit prev then remove_underscores c cs else None)
      else if prev = CHR ''_'' \<and> \<not> is_digit c then None
      else map_option ((#) c) (remove_underscores c cs))"

definition is_float_space :: "char \<Rightarrow> bool" where
  \<comment> \<open>the whitespace \<^verbatim>\<open>float\<close> skips around a number\<close>
  "is_float_space c =
     (let n = (of_char c :: nat) in (9 \<le> n \<and> n \<le> 13) \<or> n = 32 \<or> n = 133 \<or> n = 160)"

definition split_sign :: "string \<Rightarrow> bool \<times> string" where
  "split_sign s =
     (case s of
        [] \<Rightarrow> (False, [])
      | c # cs \<Rightarrow> if c = CHR ''-'' then (True, cs) else if c = CHR ''+'' then (False, cs) else (False, s))"

definition ascii_lower :: "char \<Rightarrow> char" where
  "ascii_lower c = (let n = (of_char c :: nat) in if 65 \<le> n \<and> n \<le> 90 then char_of (n + 32) else c)"

definition parse_inf_or_nan :: "string \<Rightarrow> pyfloat option" where
  \<comment> \<open>\<^verbatim>\<open>inf\<close>, \<^verbatim>\<open>infinity\<close> and \<^verbatim>\<open>nan\<close>, in any case, after an optional sign\<close>
  "parse_inf_or_nan s =
     (let (neg, body) = split_sign s; b = map ascii_lower body
      in if b = ''inf'' \<or> b = ''infinity'' then Some (if neg then NegInf else PosInf)
         else if b = ''nan'' then Some NaN
         else None)"

definition parse_exponent :: "string \<Rightarrow> int option" where
  \<comment> \<open>nothing, or \<^verbatim>\<open>e\<close> or \<^verbatim>\<open>E\<close>, an optional sign and at least one digit\<close>
  "parse_exponent s =
     (case s of
        [] \<Rightarrow> Some 0
      | c # cs \<Rightarrow>
          if c = CHR ''e'' \<or> c = CHR ''E'' then
            (let (neg, ds) = split_sign cs
             in if ds \<noteq> [] \<and> list_all is_digit ds
                then Some (if neg then - digits_value ds else digits_value ds)
                else None)
          else None)"

definition parse_decimal :: "string \<Rightarrow> pyfloat option" where
  \<comment> \<open>an optional sign, digits with an optional point (a digit on one side of it at
      least) and an optional exponent, rounded to the nearest float\<close>
  "parse_decimal s =
     (let (neg, body) = split_sign s;
          ip = takeWhile is_digit body;
          rest = dropWhile is_digit body;
          fp = (case rest of [] \<Rightarrow> [] | c # cs \<Rightarrow> if c = CHR ''.'' then takeWhile is_digit cs else []);
          rest' = (case rest of [] \<Rightarrow> [] | c # cs \<Rightarrow> if c = CHR ''.'' then dropWhile is_digit cs else rest)
      in if ip = [] \<and> fp = [] then None
         else case parse_exponent rest' of
                None \<Rightarrow> None
              | Some ex \<Rightarrow>
                  (let mant = digits_value (ip @ fp);
                       dexp = ex - int (length fp);
                       x = (if 0 \<le> dexp then binary64 (mant * 10 ^ nat dexp) 1
                            else binary64 mant (10 ^ nat (- dexp)))
                   in Some (if neg then negate x else x)))"

definition float_of_str :: "string \<Rightarrow> pyerror + pyfloat" where
  \<comment> \<open>\<^verbatim>\<open>float(s)\<close> on a string\<close>
  "float_of_str s =
     (case remove_underscores (CHR 0x00) s of
        None \<Rightarrow> Inl (ValueError (CouldNotConvertToFloat s))
      | Some t \<Rightarrow>
          (let u = rev (dropWhile is_float_space (rev (dropWhile is_float_space t)))
           in case parse_decimal u of
                Some x \<Rightarrow> Inr x
              | None \<Rightarrow>
                  (case parse_inf_or_nan u of
                     Some x \<Rightarrow> Inr x
                   | None \<Rightarrow> Inl (ValueError (CouldNotConvertToFloat s)))))"

section \<open>The module's tables\<close>

definition MODES :: "string list" where
  "MODES = [''auto'', ''cool'', ''dry'', ''fan'', ''heat'']"

definition SWING_CHAR_TO_NAME :: "(string \<times> string) list" where
  "SWING_CHAR_TO_NAME =
     [(''a'', ''auto''), (''h'', ''horizontal''), (''3'', ''30''), (''4'', ''45''),
      (''6'', ''60''), (''v'', ''vertical''), (''x'', ''stop'')]"

definition SWING_NAME_TO_CHAR :: "(string \<times> string) list" where
  "SWING_NAME_TO_CHAR = map (\<lambda>(key, value). (value, key)) SWING_CHAR_TO_NAME"

definition SWING_MODES :: "string list" where
  "SWING_MODES = map snd SWING_CHAR_TO_NAME"

definition getitem :: "(string \<times> string) list \<Rightarrow> string \<Rightarrow> pyerror + string" where
  \<comment> \<open>\<^verbatim>\<open>d[key]\<close> on a dictionary written as its items in insertion order: the last item
      with the key counts, and a missing key raises\<close>
  "getitem d key = (case map_of (rev d) key of None \<Rightarrow> Inl KeyError | Some v \<Rightarrow> Inr v)"

definition get :: "(string \<times> string) list \<Rightarrow> string \<Rightarrow> string option" where
  \<comment> \<open>\<^verbatim>\<open>d.get(key)\<close>\<close>
  "get d key = map_of (rev d) key"

section \<open>Unit snapshots\<close>

record CoolMasterNet =
  host :: string
  port :: nat
  read_timeout :: rat
  swing_support :: bool

record CoolMasterNetUnit =
  raw :: string
  swing_raw :: string
  unit_id :: string
  bridge :: CoolMasterNet
  is_on :: bool
  temperature_unit :: string
  thermostat :: pyfloat
  temperature :: pyfloat
  fan_speed :: string
  mode :: string
  error_code :: "string option"
  clean_filter :: bool
  demand :: bool
  swing :: "string option"

definition last_char :: "string \<Rightarrow> pyerror + char" where
  \<comment> \<open>\<^verbatim>\<open>s[-1]\<close>: the empty string has no last character\<close>
  "last_char s = (if s = [] then Inl IndexError else Inr (last s))"

definition status_fields :: "string \<Rightarrow> string list" where
  \<comment> \<open>line 94: \<^verbatim>\<open>re.split(r"\s+", self._raw.strip())\<close>\<close>
  "status_fields line = re_split_whitespace (strip line)"

definition parse :: "CoolMasterNet \<Rightarrow> string \<Rightarrow> string \<Rightarrow> string \<Rightarrow> pyerror + CoolMasterNetUnit" where
  \<comment> \<open>\<^verbatim>\<open>CoolMasterNetUnit(bridge, unit_id, raw, swing_raw)\<close>: the constructor stores its
      arguments and runs \<^verbatim>\<open>_parse\<close> (lines 77-107)\<close>
  "parse b uid line sw =
     (let fields = status_fields line
      in if length fields \<noteq> 9 then Inl (ConnectionError (UnexpectedStatusLineFormat fields))
         else
           case last_char (fields ! 2) of
             Inl e \<Rightarrow> Inl e
           | Inr suffix \<Rightarrow>
               (case float_of_str (drop_last 1 (fields ! 2)) of
                  Inl e \<Rightarrow> Inl e
                | Inr target \<Rightarrow>
                    (case float_of_str (drop_last 1 (fields ! 3)) of
                       Inl e \<Rightarrow> Inl e
                     | Inr current \<Rightarrow>
                         Inr \<lparr> raw = line,
                               swing_raw = sw,
                               unit_id = uid,
                               bridge = b,
                               is_on = (fields ! 1 = ''ON''),
                               temperature_unit =
                                 (if suffix = CHR ''F'' then ''imperial'' else ''celsius''),
                               thermostat = target,
                               temperature = current,
                               fan_speed = lower (fields ! 4),
                               mode = lower (fields ! 5),
                               error_code =
                                 (if fields ! 6 \<noteq> ''OK'' then Some (fields ! 6) else None),
                               clean_filter = (fields ! 7 = ''#''),
                               demand = (fields ! 8 = ''1''),
                               swing = get SWING_CHAR_TO_NAME sw \<rparr>)))"




section \<open>The bridge connection\<close>

text \<open>
  A coroutine of the module runs against a world: the semaphore of the bridge object, the
  peers its connections meet, and the trace of what it did to them.  It returns, raises,
  or stays blocked on the semaphore.
\<close>

datatype 'a outcome = Return 'a | Raise pyerror | Blocked

datatype event = Acquire | Open | Write bytes | Close | Release

record peer =
  accepts :: bool
    \<comment> \<open>\<^verbatim>\<open>asyncio.open_connection\<close> succeeds\<close>
  banner :: bytes
    \<comment> \<open>the bytes that arrive before the deadline of the prompt read\<close>
  eof_after_banner :: bool
    \<comment> \<open>the peer ends the stream after them\<close>
  answer :: "bytes \<Rightarrow> bytes"
    \<comment> \<open>the bytes that arrive, once the request is written, before the deadline of the
        response read\<close>
  eof_after_answer :: bool
  close_error :: "pyerror option"
    \<comment> \<open>what \<^verbatim>\<open>writer.wait_closed()\<close> raises, if it raises\<close>

record world =
  sem :: int
    \<comment> \<open>the value of \<^verbatim>\<open>self._concurrent_reads\<close>, \<^verbatim>\<open>asyncio.Semaphore(3)\<close> at first\<close>
  server :: "string \<Rightarrow> nat \<Rightarrow> nat \<Rightarrow> peer"
    \<comment> \<open>the peer that the \<^verbatim>\<open>n\<close>-th connection to a host and port meets\<close>
  conns :: nat
    \<comment> \<open>how many connections were opened\<close>
  trace :: "event list"

type_synonym 'a coroutine = "world \<Rightarrow> 'a outcome \<times> world"

definition return :: "'a \<Rightarrow> 'a coroutine" where
  "return x w = (Return x, w)"

definition raise :: "pyerror \<Rightarrow> 'a coroutine" where
  "raise e w = (Raise e, w)"

definition lift :: "pyerror + 'a \<Rightarrow> 'a coroutine" where
  \<comment> \<open>a call that returns or raises without touching the world\<close>
  "lift r = (case r of Inl e \<Rightarrow> raise e | Inr x \<Rightarrow> return x)"

definition await :: "'a coroutine \<Rightarrow> ('a \<Rightarrow> 'b coroutine) \<Rightarrow> 'b coroutine" where
  \<comment> \<open>run \<^verbatim>\<open>m\<close>, then the rest with its result; an exception or a block ends both\<close>
  "await m f w =
     (case m w of
        (Return x, w') \<Rightarrow> f x w'
      | (Raise e, w') \<Rightarrow> (Raise e, w')
      | (Blocked, w') \<Rightarrow> (Blocked, w'))"

definition emit :: "event \<Rightarrow> world \<Rightarrow> world" where
  "emit ev w = w\<lparr>trace := trace w @ [ev]\<rparr>"

definition written :: "world \<Rightarrow> bytes list" where
  \<comment> \<open>everything \<^verbatim>\<open>writer.write\<close> was given, in order\<close>
  "written w = concat (map (\<lambda>ev. case ev of Write data \<Rightarrow> [data] | _ \<Rightarrow> []) (trace w))"

text \<open>A coroutine only adds to the trace.\<close>

definition extends :: "'a coroutine \<Rightarrow> bool" where
  "extends m = (\<forall>w. \<exists>evs. trace (snd (m w)) = trace w @ evs)"

subsection \<open>Reading up to a separator\<close>

definition LIMIT :: nat where
  \<comment> \<open>the buffer limit of the stream reader that \<^verbatim>\<open>open_connection\<close> makes: 64 KiB\<close>
  "LIMIT = 65536"

fun find_sep :: "bytes \<Rightarrow> bytes \<Rightarrow> nat option" where
  \<comment> \<open>\<^verbatim>\<open>find_sep sep buf\<close>: the index of the first occurrence of \<^verbatim>\<open>sep\<close> in \<^verbatim>\<open>buf\<close>\<close>
  "find_sep sep [] = (if sep = [] then Some 0 else None)"
| "find_sep sep (c # cs) =
     (if take (length sep) (c # cs) = sep then Some 0 else map_option Suc (find_sep sep cs))"

definition readuntil :: "bytes \<Rightarrow> bytes \<Rightarrow> bool \<Rightarrow> pyerror + bytes \<times> bytes" where
  \<comment> \<open>\<^verbatim>\<open>asyncio.wait_for(reader.readuntil(separator), timeout)\<close> on a reader that holds
      \<^verbatim>\<open>buffer\<close> when the deadline passes, at end of stream or not: the data up to and with
      the first separator and the rest of the buffer, or the exception\<close>
  "readuntil separator buffer at_eof =
     (case find_sep separator buffer of
        Some isep \<Rightarrow>
          if LIMIT < isep then Inl LimitOverrunError
          else Inr (take (isep + length separator) buffer,
                    drop (isep + length separator) buffer)
      | None \<Rightarrow>
          if length separator \<le> length buffer \<and> LIMIT + length separator < length buffer + 1
          then Inl LimitOverrunError
          else if at_eof then Inl IncompleteReadError
          else Inl TimeoutError)"

subsection \<open>The transaction\<close>

definition response_body :: "bytes \<Rightarrow> pyerror + string" where
  \<comment> \<open>lines 46-53\<close>
  "response_body response =
     (case decode_ascii response of
        Inl e \<Rightarrow> Inl e
      | Inr data \<Rightarrow>
          (let data1 = (if endswith data [LF, CHR ''>''] then drop_last 1 data else data);
               data2 = (if endswith data1 (''OK'' @ [CR, LF]) then drop_last 4 data1 else data1)
           in Inr data2))"

text \<open>
  The specification words the framing of lines 46-53 as follows: decode as ASCII; strip
  exactly one trailing \<^verbatim>\<open>>\<close> if the decoded text ends with a newline and \<^verbatim>\<open>>\<close>; strip a
  trailing \<^verbatim>\<open>OK\<close>, carriage return, newline if present; return the remaining text.
\<close>

definition spec_strip_prompt :: "string \<Rightarrow> string" where
  "spec_strip_prompt t =
     (case rev t of
        g # n # r \<Rightarrow> if g = CHR ''>'' \<and> n = LF then rev (n # r) else t
      | _ \<Rightarrow> t)"

definition spec_strip_ok :: "string \<Rightarrow> string" where
  "spec_strip_ok t =
     (case rev t of
        n # c # k # a # r \<Rightarrow>
          if a = CHR ''O'' \<and> k = CHR ''K'' \<and> c = CR \<and> n = LF then rev r else t
      | _ \<Rightarrow> t)"

definition spec_response_body :: "bytes \<Rightarrow> pyerror + string" where
  "spec_response_body response =
     (if list_all (\<lambda>c. (of_char c :: nat) < 128) response
      then Inr (spec_strip_ok (spec_strip_prompt response))
      else Inl UnicodeDecodeError)"

definition read_prompt :: "peer \<Rightarrow> pyerror + bytes \<times> bytes" where
  \<comment> \<open>line 39: the read up to the first \<^verbatim>\<open>>\<close>\<close>
  "read_prompt p = readuntil ''>'' (banner p) (eof_after_banner p)"

definition read_response :: "peer \<Rightarrow> bytes \<Rightarrow> bytes \<Rightarrow> pyerror + bytes \<times> bytes" where
  \<comment> \<open>line 44: the read up to the first newline and \<^verbatim>\<open>>\<close>, from what the prompt read
      left in the buffer and what the peer sends for the request \<^verbatim>\<open>data\<close>\<close>
  "read_response p rest data =
     readuntil [LF, CHR ''>'']
       (if eof_after_banner p then rest else rest @ answer p data)
       (eof_after_banner p \<or> eof_after_answer p)"

definition exchange :: "peer \<Rightarrow> string \<Rightarrow> string coroutine" where
  \<comment> \<open>the body of the \<^verbatim>\<open>try\<close>, lines 39-53\<close>
  "exchange p request w =
     (case read_prompt p of
        Inl e \<Rightarrow> (Raise e, w)
      | Inr (prompt, rest) \<Rightarrow>
          if prompt \<noteq> ''>'' then (Raise (ConnectionError PromptNotFound), w)
          else
            (case encode_ascii (request @ [LF]) of
               Inl e \<Rightarrow> (Raise e, w)
             | Inr data \<Rightarrow>
                 (let w1 = emit (Write data) w
                  in case read_response p rest data of
                       Inl e \<Rightarrow> (Raise e, w1)
                     | Inr (response, rest') \<Rightarrow> lift (response_body response) w1)))"

definition release :: "world \<Rightarrow> world" where
  "release w = emit Release (w\<lparr>sem := sem w + 1\<rparr>)"

definition make_request :: "CoolMasterNet \<Rightarrow> string \<Rightarrow> string coroutine" where
  \<comment> \<open>\<^verbatim>\<open>CoolMasterNet._make_request\<close>, lines 32-56.  The semaphore is taken for the whole
      body and given back on every way out of it; with no free slot the coroutine waits.
      The \<^verbatim>\<open>finally\<close> closes the writer, and an exception of \<^verbatim>\<open>wait_closed\<close> replaces the
      outcome of the \<^verbatim>\<open>try\<close>.\<close>
  "make_request b request w =
     (if sem w \<le> 0 then (Blocked, w)
      else
        let w1 = emit Acquire (w\<lparr>sem := sem w - 1\<rparr>);
            p = server w (host b) (port b) (conns w)
        in if \<not> accepts p then (Raise OSError, release w1)
           else
             let w2 = emit Open (w1\<lparr>conns := conns w1 + 1\<rparr>);
                 (r, w3) = exchange p request w2;
                 w4 = emit Close w3
             in case close_error p of
                  Some e \<Rightarrow> (Raise e, release w4)
                | None \<Rightarrow> (r, release w4))"

definition opened :: "world \<Rightarrow> world" where
  \<comment> \<open>the world once the slot is taken and the connection is open\<close>
  "opened w = emit Open ((emit Acquire (w\<lparr>sem := sem w - 1\<rparr>))\<lparr>conns := conns w + 1\<rparr>)"

definition info :: "CoolMasterNet \<Rightarrow> (string \<rightharpoonup> string) coroutine" where
  \<comment> \<open>\<^verbatim>\<open>CoolMasterNet.info\<close>, lines 58-63\<close>
  "info b =
     await (make_request b ''set'')
       (\<lambda>body. let lines = split (strip body) [CR, LF];
                    key_values = map re_split_colon_once lines
                in lift (dict key_values))"

text \<open>
  The pair that a line with a colon splits into: the text before the first colon without
  the whitespace at its end, and the text after that colon without the whitespace at its
  start.
\<close>

definition key_value :: "string \<Rightarrow> string \<times> string" where
  "key_value l =
     (rstrip (takeWhile (\<lambda>c. c \<noteq> CHR '':'') l),
      lstrip (drop 1 (dropWhile (\<lambda>c. c \<noteq> CHR '':'') l)))"

definition has_colon :: "string \<Rightarrow> bool" where
  "has_colon l = (CHR '':'' \<in> set l)"

text \<open>
  The specification words \<^verbatim>\<open>fetchInfo\<close> without the trimming of the body: split the
  response body on CRLF into lines, split each line once on the colon, return the mapping.
\<close>

definition spec_info_mapping :: "string \<Rightarrow> pyerror + (string \<rightharpoonup> string)" where
  "spec_info_mapping body = dict (map re_split_colon_once (split body [CR, LF]))"

subsection \<open>Building and changing a unit\<close>

definition create :: "CoolMasterNet \<Rightarrow> string \<Rightarrow> string option \<Rightarrow> (CoolMasterNetUnit \<times> string) coroutine" where
  \<comment> \<open>\<^verbatim>\<open>CoolMasterNetUnit.create\<close>, lines 85-91\<close>
  "create b uid given =
     await (case given of
              None \<Rightarrow> await (make_request b (''ls2 '' @ uid)) (\<lambda>r. return (strip r))
            | Some line \<Rightarrow> return line)
       (\<lambda>line.
          await (if swing_support b
                 then await (make_request b (''query '' @ uid @ '' s'')) (\<lambda>r. return (strip r))
                 else return [])
            (\<lambda>sw. await (lift (parse b uid line sw)) (\<lambda>u. return (u, uid))))"

definition make_unit_request :: "CoolMasterNetUnit \<Rightarrow> string \<Rightarrow> string coroutine" where
  \<comment> \<open>line 110\<close>
  "make_unit_request u request = make_request (bridge u) (replace request ''UID'' (unit_id u))"

definition refresh :: "CoolMasterNetUnit \<Rightarrow> CoolMasterNetUnit coroutine" where
  \<comment> \<open>line 114\<close>
  "refresh u = await (create (bridge u) (unit_id u) None) (\<lambda>(u', uid). return u')"

definition set_mode :: "CoolMasterNetUnit \<Rightarrow> string \<Rightarrow> CoolMasterNetUnit coroutine" where
  \<comment> \<open>lines 175-183\<close>
  "set_mode u v =
     (if v \<notin> set MODES
      then raise (ValueError (Message
             (''Unrecognized mode '' @ v @ ''. Valid values: '' @ join '' '' MODES)))
      else await (make_unit_request u (v @ '' UID'')) (\<lambda>r. refresh u))"

definition set_swing :: "CoolMasterNetUnit \<Rightarrow> string \<Rightarrow> CoolMasterNetUnit coroutine" where
  \<comment> \<open>lines 191-204\<close>
  "set_swing u v =
     (if v \<notin> set SWING_MODES
      then raise (ValueError (Message
             (''Unrecognized swing mode '' @ v @ ''. Valid values: '' @ join '', '' SWING_MODES)))
      else
        await (lift (getitem SWING_NAME_TO_CHAR v))
          (\<lambda>code.
             await (make_unit_request u (''swing UID '' @ code))
               (\<lambda>return_value.
                  if startswith return_value ''Unsupported Feature''
                  then raise (ValueError (Message
                         (''Unit '' @ unit_id u @ '' doesn't support swing mode '' @ v @ ''.'')))
                  else refresh u)))"

section \<open>Concurrent transactions\<close>

text \<open>
  Several coroutines run \<^verbatim>\<open>_make_request\<close> on one bridge object at a time; they interleave
  at the \<^verbatim>\<open>await\<close>s of lines 34-56.  Between two of its events a transaction is in one
  phase: waiting for the semaphore (line 34), connecting with the slot held (line 36),
  reading the prompt on the open connection (line 39), reading the response after the
  request was written (lines 43-44), closing in the \<^verbatim>\<open>finally\<close> (lines 55-56), or finished,
  outside the \<^verbatim>\<open>async with\<close>.  A failed \<^verbatim>\<open>open_connection\<close> leaves the \<^verbatim>\<open>async with\<close> at once;
  every other way out of the \<^verbatim>\<open>try\<close> passes through the \<^verbatim>\<open>finally\<close>.
\<close>

datatype phase = Waiting | Connecting | Prompting | Responding | Closing | Finished

fun next_phase :: "phase \<Rightarrow> event \<Rightarrow> phase option" where
  "next_phase Waiting Acquire = Some Connecting"
| "next_phase Connecting Open = Some Prompting"
| "next_phase Connecting Release = Some Finished"
| "next_phase Prompting (Write data) = Some Responding"
| "next_phase Prompting Close = Some Closing"
| "next_phase Responding Close = Some Closing"
| "next_phase Closing Release = Some Finished"
| "next_phase p ev = None"

fun run :: "phase \<Rightarrow> event list \<Rightarrow> phase option" where
  "run p [] = Some p"
| "run p (ev # evs) = (case next_phase p ev of None \<Rightarrow> None | Some p' \<Rightarrow> run p' evs)"

text \<open>
  The semaphore is its counter: \<^verbatim>\<open>acquire\<close> goes ahead only while the counter is positive
  and takes one from it, \<^verbatim>\<open>release\<close> adds one.  One step of the pool is one event of one
  transaction.
\<close>

fun admits :: "int \<Rightarrow> event \<Rightarrow> bool" where
  "admits v Acquire = (0 < v)"
| "admits v ev = True"

fun effect :: "event \<Rightarrow> int" where
  "effect Acquire = - 1"
| "effect Release = 1"
| "effect ev = 0"

text \<open>
  A transaction holds a slot from its \<^verbatim>\<open>acquire\<close> to its \<^verbatim>\<open>release\<close>; its connection counts
  as open from \<^verbatim>\<open>open_connection\<close> until \<^verbatim>\<open>wait_closed\<close> is over.
\<close>

definition holds :: "phase \<Rightarrow> bool" where
  "holds p = (p = Connecting \<or> p = Prompting \<or> p = Responding \<or> p = Closing)"

definition connection_open :: "phase \<Rightarrow> bool" where
  "connection_open p = (p = Prompting \<or> p = Responding \<or> p = Closing)"

definition holders :: "phase list \<Rightarrow> nat" where
  "holders ps = length (filter holds ps)"

definition connections :: "phase list \<Rightarrow> nat" where
  "connections ps = length (filter connection_open ps)"

type_synonym pool = "int \<times> phase list"

inductive step :: "nat \<Rightarrow> pool \<Rightarrow> pool \<Rightarrow> bool" where
  step:
    "i < length ps \<Longrightarrow> next_phase (ps ! i) ev = Some p' \<Longrightarrow> admits v ev \<Longrightarrow>
     step i (v, ps) (v + effect ev, ps[i := p'])"

text \<open>The pool starts with the counter at 3 and every transaction waiting.\<close>

inductive reachable :: "pool \<Rightarrow> bool" where
  init: "reachable (3, replicate n Waiting)"
| advance: "reachable s \<Longrightarrow> step i s s' \<Longrightarrow> reachable s'"

section \<open>Scenarios\<close>

text \<open>
  A bridge object made with the defaults of the constructor, a peer that sends the prompt
  and then one fixed response to whatever it is asked, and a world in which nothing has
  happened yet and every connection meets the same peer.
\<close>

definition bridge0 :: CoolMasterNet where
  "bridge0 = \<lparr> host = ''coolmasternet'', port = 10102, read_timeout = 1, swing_support = False \<rparr>"

definition prompting_peer :: "bytes \<Rightarrow> peer" where
  "prompting_peer response =
     \<lparr> accepts = True, banner = ''>'', eof_after_banner = False,
       answer = (\<lambda>request. response), eof_after_answer = False, close_error = None \<rparr>"

definition fresh_world :: "peer \<Rightarrow> world" where
  "fresh_world p = \<lparr> sem = 3, server = (\<lambda>h n i. p), conns = 0, trace = [] \<rparr>"

definition silent_peer :: peer where
  \<comment> \<open>a peer that accepts the connection and sends nothing\<close>
  "silent_peer = (prompting_peer [])\<lparr>banner := []\<rparr>"

definition chatty_peer :: peer where
  \<comment> \<open>a peer that greets before its prompt\<close>
  "chatty_peer = (prompting_peer [])\<lparr>banner := ''Welcome>''\<rparr>"

definition scenario_A_line :: string where
  "scenario_A_line = '' IEF001 ON    021.0C 023.5C Med  Cool  OK - 0''"

definition scenario_A_response :: bytes where
  "scenario_A_response = scenario_A_line @ [CR, LF] @ ''OK'' @ [CR, LF] @ ''>''"

definition scenario_B_response :: bytes where
  "scenario_B_response =
     ''Unit: X'' @ [CR, LF] @ ''Version: 1.0'' @ [CR, LF] @ ''OK'' @ [CR, LF] @ ''>''"

definition unit0 :: CoolMasterNetUnit where
  \<comment> \<open>the snapshot of scenario A\<close>
  "unit0 =
     \<lparr> raw = strip scenario_A_line, swing_raw = [], unit_id = ''IEF001'', bridge = bridge0,
       is_on = True, temperature_unit = ''celsius'', thermostat = Finite 21,
       temperature = Finite (47 / 2), fan_speed = ''med'', mode = ''cool'',
       error_code = None, clean_filter = False, demand = False, swing = None \<rparr>"

definition unsupported_response :: bytes where
  \<comment> \<open>what a bridge answers to a swing command that the unit does not know\<close>
  "unsupported_response = ''Unsupported Feature'' @ [CR, LF] @ ''>''"

definition indented_response :: bytes where
  \<comment> \<open>an answer to \<^verbatim>\<open>set\<close> whose line starts with a space, as the status lines do\<close>
  "indented_response = '' Unit: X'' @ [CR, LF] @ ''OK'' @ [CR, LF] @ ''>''"




section \<open>The status line parser\<close>

subsection \<open>The fields of a status line\<close>









subsection \<open>A line with the wrong number of fields\<close>

text \<open>
  C3.  A raw status line whose trimmed text does not split, on runs of whitespace, into
  exactly 9 fields makes the constructor of a unit snapshot raise the
  \<^verbatim>\<open>ConnectionError\<close> that shows the fields (the protocol error of a malformed line), so
  no snapshot comes back.  \<^verbatim>\<open>create\<close>, given such a line, never returns a snapshot
  either, and with swing support off it raises that error without touching the bridge.
\<close>

theorem parse_wrong_field_count:
  assumes "length (status_fields line) \<noteq> 9"
  shows "parse b uid line sw
           = Inl (ConnectionError (UnexpectedStatusLineFormat (status_fields line)))
       \<and> fst (create b uid (Some line) w) \<noteq> Return x
       \<and> (\<not> swing_support b \<longrightarrow>
            create b uid (Some line) w
              = (Raise (ConnectionError (UnexpectedStatusLineFormat (status_fields line))), w))"
proof -
  have p: "parse b uid line sw'
           = Inl (ConnectionError (UnexpectedStatusLineFormat (status_fields line)))" for sw'
    using assms by (simp add: parse_def)
  have "fst (create b uid (Some line) w) \<noteq> Return x"
    by (auto simp: create_def await_def return_def lift_def raise_def p
             split: prod.splits outcome.splits)
  moreover have "\<not> swing_support b \<longrightarrow>
            create b uid (Some line) w
              = (Raise (ConnectionError (UnexpectedStatusLineFormat (status_fields line))), w)"
    by (simp add: create_def await_def return_def lift_def raise_def p)
  ultimately show ?thesis using p by simp
qed

theorem parse_wrong_field_count_witness:
  "length (status_fields ''IEF001 ON 023.5C Med Cool OK - 0'') \<noteq> 9
   \<and> parse bridge0 ''IEF001'' ''IEF001 ON 023.5C Med Cool OK - 0'' []
       = Inl (ConnectionError (UnexpectedStatusLineFormat
               [''IEF001'', ''ON'', ''023.5C'', ''Med'', ''Cool'', ''OK'', ''-'', ''0'']))
   \<and> create bridge0 ''IEF001'' (Some ''IEF001 ON 023.5C Med Cool OK - 0'')
         (fresh_world (prompting_peer []))
       = (Raise (ConnectionError (UnexpectedStatusLineFormat
               [''IEF001'', ''ON'', ''023.5C'', ''Med'', ''Cool'', ''OK'', ''-'', ''0''])),
          fresh_world (prompting_peer []))"
proof -
  have f: "status_fields ''IEF001 ON 023.5C Med Cool OK - 0''
             = [''IEF001'', ''ON'', ''023.5C'', ''Med'', ''Cool'', ''OK'', ''-'', ''0'']"
    by (simp add: status_fields_def re_split_whitespace_def strip_def lstrip_def rstrip_def
        is_space_def)
  have n: "length (status_fields ''IEF001 ON 023.5C Med Cool OK - 0'') \<noteq> 9"
    by (simp add: f)
  have s: "\<not> swing_support bridge0" by (simp add: bridge0_def)
  show ?thesis
    using parse_wrong_field_count [OF n, of bridge0 "''IEF001''" "[]"
        "fresh_world (prompting_peer [])"] s
    by (simp add: f)
qed

subsection \<open>Scenario A\<close>

lemma status_fields_scenario_A:
  "status_fields scenario_A_line
     = [''IEF001'', ''ON'', ''021.0C'', ''023.5C'', ''Med'', ''Cool'', ''OK'', ''-'', ''0'']"
  by (simp add: scenario_A_line_def status_fields_def re_split_whitespace_def strip_def
      lstrip_def rstrip_def is_space_def)

lemmas float_defs = float_of_str_def is_float_space_def parse_decimal_def split_sign_def
  is_digit_def parse_exponent_def digits_value_def binary64_def floor_log2_def
  round_half_even_div_def pow2_def parse_inf_or_nan_def ascii_lower_def Let_def

lemma floorlog_210: "floorlog 2 (210::nat) = 8" by (simp add: compute_floorlog)
lemma floorlog_235: "floorlog 2 (235::nat) = 8" by (simp add: compute_floorlog)
lemma floorlog_10: "floorlog 2 (10::nat) = 4" by (simp add: compute_floorlog)

lemma float_021_0: "float_of_str ''021.0'' = Inr (Finite 21)"
  by (simp add: float_defs floorlog_210 floorlog_10)

lemma float_023_5: "float_of_str ''023.5'' = Inr (Finite (47 / 2))"
  by (simp add: float_defs floorlog_235 floorlog_10)



lemma parse_scenario_A:
  "parse b uid scenario_A_line sw =
     Inr \<lparr> raw = scenario_A_line, swing_raw = sw, unit_id = uid, bridge = b, is_on = True,
           temperature_unit = ''celsius'', thermostat = Finite 21, temperature = Finite (47 / 2),
           fan_speed = ''med'', mode = ''cool'', error_code = None, clean_filter = False,
           demand = False, swing = get SWING_CHAR_TO_NAME sw \<rparr>"
  by (simp add: parse_def status_fields_scenario_A last_char_def drop_last_def float_021_0
      float_023_5 lower_def lower_char_def char_of_eq_iff)

lemma make_request_scenario_A:
  "make_request bridge0 ''ls2 IEF001'' (fresh_world (prompting_peer scenario_A_response))
     = (Return (scenario_A_line @ [CR, LF]),
        \<lparr> sem = 3, server = (\<lambda>h n i. prompting_peer scenario_A_response), conns = 1,
          trace = [Acquire, Open, Write (''ls2 IEF001'' @ [LF]), Close, Release] \<rparr>)"
  by (simp add: make_request_def fresh_world_def prompting_peer_def bridge0_def emit_def
      release_def exchange_def read_prompt_def read_response_def readuntil_def LIMIT_def encode_ascii_def is_ascii_def
      scenario_A_response_def scenario_A_line_def response_body_def decode_ascii_def
      endswith_def drop_last_def lift_def return_def raise_def Let_def)

text \<open>
  C4.  The raw status line of scenario A parses to a snapshot that is on, with thermostat
  21.0, temperature 23.5, unit celsius, fan speed \<^verbatim>\<open>med\<close>, mode \<^verbatim>\<open>cool\<close>, no error code,
  no filter warning and no demand; both numbers are binary64 values, so the floats are
  these rationals exactly.  Fetched from a bridge that answers \<^verbatim>\<open>ls2 IEF001\<close> with the
  response of scenario A, \<^verbatim>\<open>create\<close> returns that snapshot (of the trimmed line) after one
  transaction.
\<close>

theorem unit_scenario_A:
  "parse b uid scenario_A_line sw =
     Inr \<lparr> raw = scenario_A_line, swing_raw = sw, unit_id = uid, bridge = b, is_on = True,
           temperature_unit = ''celsius'', thermostat = Finite 21, temperature = Finite (47 / 2),
           fan_speed = ''med'', mode = ''cool'', error_code = None, clean_filter = False,
           demand = False, swing = get SWING_CHAR_TO_NAME sw \<rparr>
   \<and> create bridge0 ''IEF001'' None (fresh_world (prompting_peer scenario_A_response)) =
       (Return
          (\<lparr> raw = strip scenario_A_line, swing_raw = [], unit_id = ''IEF001'', bridge = bridge0,
             is_on = True, temperature_unit = ''celsius'', thermostat = Finite 21,
             temperature = Finite (47 / 2), fan_speed = ''med'', mode = ''cool'',
             error_code = None, clean_filter = False, demand = False, swing = None \<rparr>,
           ''IEF001''),
        \<lparr> sem = 3, server = (\<lambda>h n i. prompting_peer scenario_A_response), conns = 1,
          trace = [Acquire, Open, Write (''ls2 IEF001'' @ [LF]), Close, Release] \<rparr>)"
proof -
  have s: "strip (scenario_A_line @ [CR, LF]) = strip scenario_A_line"
    by (simp add: scenario_A_line_def strip_def lstrip_def rstrip_def is_space_def)
  have f: "status_fields (strip scenario_A_line) = status_fields scenario_A_line"
    by (simp add: scenario_A_line_def status_fields_def strip_def lstrip_def rstrip_def
        is_space_def)
  have p: "parse bridge0 ''IEF001'' (strip scenario_A_line) [] =
     Inr \<lparr> raw = strip scenario_A_line, swing_raw = [], unit_id = ''IEF001'', bridge = bridge0,
             is_on = True, temperature_unit = ''celsius'', thermostat = Finite 21,
             temperature = Finite (47 / 2), fan_speed = ''med'', mode = ''cool'',
             error_code = None, clean_filter = False, demand = False, swing = None \<rparr>"
    by (simp add: parse_def f status_fields_scenario_A last_char_def drop_last_def float_021_0
        float_023_5 lower_def lower_char_def char_of_eq_iff get_def SWING_CHAR_TO_NAME_def)
  have n: "\<not> swing_support bridge0" by (simp add: bridge0_def)
  have "create bridge0 ''IEF001'' None (fresh_world (prompting_peer scenario_A_response)) =
       (Return
          (\<lparr> raw = strip scenario_A_line, swing_raw = [], unit_id = ''IEF001'', bridge = bridge0,
             is_on = True, temperature_unit = ''celsius'', thermostat = Finite 21,
             temperature = Finite (47 / 2), fan_speed = ''med'', mode = ''cool'',
             error_code = None, clean_filter = False, demand = False, swing = None \<rparr>,
           ''IEF001''),
        \<lparr> sem = 3, server = (\<lambda>h n i. prompting_peer scenario_A_response), conns = 1,
          trace = [Acquire, Open, Write (''ls2 IEF001'' @ [LF]), Close, Release] \<rparr>)"
    using make_request_scenario_A
    by (simp add: create_def await_def return_def lift_def n s p)
  with parse_scenario_A show ?thesis by simp
qed

subsection \<open>Fields that are not numbers\<close>



section \<open>The transaction protocol\<close>

subsection \<open>What a transaction does to the world\<close>

lemma make_request_connected:
  assumes "0 < sem w" and "p = server w (host b) (port b) (conns w)"
    and "accepts p" and "close_error p = None"
  shows "make_request b request w
           = (fst (exchange p request (opened w)),
              release (emit Close (snd (exchange p request (opened w)))))"
  using assms
  by (simp add: make_request_def opened_def emit_def Let_def split: prod.splits)

lemma find_sep_absent: "c \<notin> set buf \<Longrightarrow> find_sep [c] buf = None"
  by (induction buf) auto

lemma find_sep_first: "c \<notin> set pre \<Longrightarrow> find_sep [c] (pre @ c # rest) = Some (length pre)"
  by (induction pre) auto

lemma read_prompt_timeout:
  assumes "CHR ''>'' \<notin> set (banner p)" and "length (banner p) \<le> LIMIT"
    and "\<not> eof_after_banner p"
  shows "read_prompt p = Inl TimeoutError"
  using assms by (simp add: read_prompt_def readuntil_def find_sep_absent)

lemma read_prompt_data:
  assumes "banner p = pre @ CHR ''>'' # rest" and "CHR ''>'' \<notin> set pre"
    and "length pre \<le> LIMIT"
  shows "read_prompt p = Inr (pre @ ''>'', rest)"
  using assms by (simp add: read_prompt_def readuntil_def find_sep_first)

lemma trace_release_close:
  "trace (release (emit Close w)) = trace w @ [Close, Release]"
  "sem (release (emit Close w)) = sem w + 1"
  "conns (release (emit Close w)) = conns w"
  "server (release (emit Close w)) = server w"
  by (simp_all add: release_def emit_def)

lemma opened_simps:
  "trace (opened w) = trace w @ [Acquire, Open]"
  "sem (opened w) = sem w - 1"
  "conns (opened w) = conns w + 1"
  "server (opened w) = server w"
  by (simp_all add: opened_def emit_def)

lemma written_append: "written (w\<lparr>trace := trace w @ evs\<rparr>) = written w @ concat (map (\<lambda>ev. case ev of Write data \<Rightarrow> [data] | _ \<Rightarrow> []) evs)"
  by (simp add: written_def)

lemma make_request_aborted:
  assumes "0 < sem w" and "p = server w (host b) (port b) (conns w)"
    and "accepts p" and "close_error p = None"
    and "exchange p request (opened w) = (Raise e, opened w)"
  shows "fst (make_request b request w) = Raise e
       \<and> trace (snd (make_request b request w)) = trace w @ [Acquire, Open, Close, Release]
       \<and> written (snd (make_request b request w)) = written w
       \<and> sem (snd (make_request b request w)) = sem w"
  using assms(5)
  by (simp add: make_request_connected [OF assms(1-4)] trace_release_close opened_simps
      written_def)

text \<open>
  Whatever its outcome, a transaction that found a free slot has taken it and given it
  back, and has closed the connection it opened; it wrote the request and a newline, or
  nothing.
\<close>

lemma make_request_events:
  assumes "0 < sem w"
  shows "\<exists>evs. trace (snd (make_request b request w)) = trace w @ evs
             \<and> (evs = [Acquire, Release] \<or> evs = [Acquire, Open, Close, Release]
                  \<or> evs = [Acquire, Open, Write (request @ [LF]), Close, Release])"
  using assms
  by (auto simp: make_request_def exchange_def encode_ascii_def lift_def return_def raise_def
      release_def emit_def Let_def split: sum.splits prod.splits option.splits if_splits)

lemma extends_return: "extends (return x)"
  by (simp add: extends_def return_def)

lemma extends_raise: "extends (raise e)"
  by (simp add: extends_def raise_def)

lemma extends_lift: "extends (lift r)"
  by (cases r) (simp_all add: lift_def extends_return extends_raise)

lemma extends_await:
  assumes "extends m" and "\<And>x. extends (f x)"
  shows "extends (await m f)"
  unfolding extends_def
proof
  fix w
  from assms(1) obtain evs where m: "trace (snd (m w)) = trace w @ evs"
    unfolding extends_def by blast
  obtain r w' where mw: "m w = (r, w')" by (cases "m w")
  show "\<exists>evs. trace (snd (await m f w)) = trace w @ evs"
  proof (cases r)
    case (Return x)
    from assms(2) [of x] obtain evs' where "trace (snd (f x w')) = trace w' @ evs'"
      unfolding extends_def by blast
    with m mw Return show ?thesis by (simp add: await_def)
  next
    case (Raise e)
    with m mw show ?thesis by (simp add: await_def)
  next
    case Blocked
    with m mw show ?thesis by (simp add: await_def)
  qed
qed

lemma extends_make_request: "extends (make_request b request)"
  unfolding extends_def
proof
  fix w
  show "\<exists>evs. trace (snd (make_request b request w)) = trace w @ evs"
  proof (cases "0 < sem w")
    case True
    from make_request_events [OF this] show ?thesis by blast
  next
    case False
    then show ?thesis by (simp add: make_request_def)
  qed
qed

lemma extends_create: "extends (create b uid given)"
  unfolding create_def
  by (intro extends_await extends_make_request extends_return extends_lift)
     (auto split: option.splits intro: extends_await extends_make_request extends_return)

lemma extends_refresh: "extends (refresh u)"
  unfolding refresh_def
  by (intro extends_await extends_create) (auto simp: extends_return split: prod.splits)

subsection \<open>The prompt\<close>

text \<open>
  C1, as the code has it.  On a connection that opens and closes without an error of its
  own: when no \<^verbatim>\<open>>\<close> arrives before the deadline of the prompt read, the transaction
  raises \<^verbatim>\<open>TimeoutError\<close> (not the prompt error); when bytes come before the first \<^verbatim>\<open>>\<close>,
  it raises \<^verbatim>\<open>ConnectionError("CoolMasterNet prompt not found")\<close>.  Either way the
  connection is opened and closed, the slot is given back, and nothing is written.
\<close>

theorem prompt_failure:
  assumes "0 < sem w" and "p = server w (host b) (port b) (conns w)"
    and "accepts p" and "close_error p = None"
  shows "(CHR ''>'' \<notin> set (banner p) \<and> length (banner p) \<le> LIMIT \<and> \<not> eof_after_banner p
            \<longrightarrow> fst (make_request b request w) = Raise TimeoutError
              \<and> trace (snd (make_request b request w)) = trace w @ [Acquire, Open, Close, Release]
              \<and> written (snd (make_request b request w)) = written w
              \<and> sem (snd (make_request b request w)) = sem w)
       \<and> (banner p = pre @ CHR ''>'' # rest \<and> CHR ''>'' \<notin> set pre \<and> length pre \<le> LIMIT
            \<and> pre \<noteq> []
            \<longrightarrow> fst (make_request b request w) = Raise (ConnectionError PromptNotFound)
              \<and> trace (snd (make_request b request w)) = trace w @ [Acquire, Open, Close, Release]
              \<and> written (snd (make_request b request w)) = written w
              \<and> sem (snd (make_request b request w)) = sem w)"
proof (intro conjI impI)
  assume "CHR ''>'' \<notin> set (banner p) \<and> length (banner p) \<le> LIMIT \<and> \<not> eof_after_banner p"
  then have "exchange p request (opened w) = (Raise TimeoutError, opened w)"
    by (simp add: exchange_def read_prompt_timeout)
  from make_request_aborted [OF assms this]
  show "fst (make_request b request w) = Raise TimeoutError"
    and "trace (snd (make_request b request w)) = trace w @ [Acquire, Open, Close, Release]"
    and "written (snd (make_request b request w)) = written w"
    and "sem (snd (make_request b request w)) = sem w"
    by simp_all
next
  assume "banner p = pre @ CHR ''>'' # rest \<and> CHR ''>'' \<notin> set pre \<and> length pre \<le> LIMIT
            \<and> pre \<noteq> []"
  then have "exchange p request (opened w) = (Raise (ConnectionError PromptNotFound), opened w)"
    by (simp add: exchange_def read_prompt_data)
  from make_request_aborted [OF assms this]
  show "fst (make_request b request w) = Raise (ConnectionError PromptNotFound)"
    and "trace (snd (make_request b request w)) = trace w @ [Acquire, Open, Close, Release]"
    and "written (snd (make_request b request w)) = written w"
    and "sem (snd (make_request b request w)) = sem w"
    by simp_all
qed

text \<open>
  The claim as stated fails on a peer that stays silent: the transaction ends with
  \<^verbatim>\<open>TimeoutError\<close>, which is not the prompt error.
\<close>

theorem prompt_timeout_counterexample:
  "fst (make_request bridge0 ''ls2'' (fresh_world silent_peer)) = Raise TimeoutError
   \<and> fst (make_request bridge0 ''ls2'' (fresh_world silent_peer))
       \<noteq> Raise (ConnectionError PromptNotFound)"
  by (simp add: make_request_def fresh_world_def silent_peer_def prompting_peer_def bridge0_def
      emit_def release_def exchange_def read_prompt_def readuntil_def LIMIT_def Let_def)

theorem prompt_failure_witness:
  "fst (make_request bridge0 ''ls2'' (fresh_world silent_peer)) = Raise TimeoutError
   \<and> written (snd (make_request bridge0 ''ls2'' (fresh_world silent_peer))) = []
   \<and> fst (make_request bridge0 ''ls2'' (fresh_world chatty_peer))
       = Raise (ConnectionError PromptNotFound)
   \<and> written (snd (make_request bridge0 ''ls2'' (fresh_world chatty_peer))) = []"
proof -
  have s: "0 < sem (fresh_world silent_peer)"
    "silent_peer = server (fresh_world silent_peer) (host bridge0) (port bridge0)
        (conns (fresh_world silent_peer))"
    "accepts silent_peer" "close_error silent_peer = None"
    "CHR ''>'' \<notin> set (banner silent_peer) \<and> length (banner silent_peer) \<le> LIMIT
       \<and> \<not> eof_after_banner silent_peer"
    "written (fresh_world silent_peer) = []"
    by (simp_all add: fresh_world_def silent_peer_def prompting_peer_def LIMIT_def written_def)
  have c: "0 < sem (fresh_world chatty_peer)"
    "chatty_peer = server (fresh_world chatty_peer) (host bridge0) (port bridge0)
        (conns (fresh_world chatty_peer))"
    "accepts chatty_peer" "close_error chatty_peer = None"
    "banner chatty_peer = ''Welcome'' @ CHR ''>'' # [] \<and> CHR ''>'' \<notin> set ''Welcome''
       \<and> length ''Welcome'' \<le> LIMIT \<and> ''Welcome'' \<noteq> []"
    "written (fresh_world chatty_peer) = []"
    by (simp_all add: fresh_world_def chatty_peer_def prompting_peer_def LIMIT_def written_def)
  show ?thesis
    using prompt_failure [OF s(1-4), of "''ls2''" "''Welcome''" "[]"] s(5,6)
      prompt_failure [OF c(1-4), of "''ls2''" "''Welcome''" "[]"] c(5,6)
    by simp
qed

subsection \<open>The response body\<close>

lemma endswith_iff: "endswith s p \<longleftrightarrow> (\<exists>u. s = u @ p)"
proof
  assume "endswith s p"
  then have "s = take (length s - length p) s @ p"
    by (metis append_take_drop_id endswith_def)
  then show "\<exists>u. s = u @ p" ..
next
  assume "\<exists>u. s = u @ p"
  then show "endswith s p" by (auto simp: endswith_def)
qed

lemma drop_last_append: "length p = n \<Longrightarrow> drop_last n (u @ p) = u"
  by (simp add: drop_last_def)

lemma spec_strip_prompt_eq:
  "spec_strip_prompt t = (if endswith t [LF, CHR ''>''] then drop_last 1 t else t)"
proof (cases "endswith t [LF, CHR ''>'']")
  case True
  then obtain u where u: "t = u @ [LF, CHR ''>'']" by (auto simp: endswith_iff)
  then have "drop_last 1 t = u @ [LF]" by (simp add: drop_last_def)
  with True u show ?thesis by (simp add: spec_strip_prompt_def)
next
  case False
  have "spec_strip_prompt t = t"
  proof (cases "rev t")
    case Nil
    then show ?thesis by (simp add: spec_strip_prompt_def)
  next
    case (Cons g r1)
    show ?thesis
    proof (cases r1)
      case Nil
      with Cons show ?thesis by (simp add: spec_strip_prompt_def)
    next
      case (Cons n r)
      with \<open>rev t = g # r1\<close> have t: "t = rev r @ [n, g]" by simp
      with False have "\<not> (g = CHR ''>'' \<and> n = LF)" by (auto simp: endswith_iff)
      with t show ?thesis by (auto simp: spec_strip_prompt_def)
    qed
  qed
  with False show ?thesis by simp
qed

lemma spec_strip_ok_eq:
  "spec_strip_ok t = (if endswith t (''OK'' @ [CR, LF]) then drop_last 4 t else t)"
proof (cases "endswith t (''OK'' @ [CR, LF])")
  case True
  then obtain u where u: "t = u @ ''OK'' @ [CR, LF]" by (auto simp: endswith_iff)
  then have "drop_last 4 t = u" by (simp add: drop_last_def)
  with True u show ?thesis by (simp add: spec_strip_ok_def)
next
  case False
  have "spec_strip_ok t = t"
  proof (cases "\<exists>n c k a r. rev t = n # c # k # a # r")
    case True
    then obtain n c k a r where r: "rev t = n # c # k # a # r" by blast
    then have t: "t = rev r @ [a, k, c, n]" by simp
    with False have "\<not> (a = CHR ''O'' \<and> k = CHR ''K'' \<and> c = CR \<and> n = LF)"
      by (auto simp: endswith_iff)
    with r show ?thesis by (auto simp: spec_strip_ok_def)
  next
    case False
    then show ?thesis by (auto simp: spec_strip_ok_def split: list.splits)
  qed
  with False show ?thesis by simp
qed

text \<open>
  C2.  For every response read up to the terminator, the code computes the body the way
  the specification words it: decode as ASCII (a byte above 127 raises), strip exactly
  one trailing \<^verbatim>\<open>>\<close> after a newline, then strip a trailing \<^verbatim>\<open>OK\<close> line ending, and return
  the rest unchanged.  That body, or the decoding error, is what the transaction returns
  once the prompt was \<^verbatim>\<open>>\<close>, the request was written and the response was read.
\<close>

theorem response_body_refines:
  "response_body response = spec_response_body response
   \<and> (0 < sem w \<and> p = server w (host b) (port b) (conns w) \<and> accepts p \<and> close_error p = None
        \<and> read_prompt p = Inr (''>'', rest) \<and> encode_ascii (request @ [LF]) = Inr data
        \<and> read_response p rest data = Inr (response, rest')
      \<longrightarrow> fst (make_request b request w)
            = (case spec_response_body response of Inl e \<Rightarrow> Raise e | Inr body \<Rightarrow> Return body))"
proof -
  have r: "response_body response = spec_response_body response"
    by (simp add: response_body_def spec_response_body_def decode_ascii_def is_ascii_def
        spec_strip_prompt_eq spec_strip_ok_eq Let_def)
  have "fst (make_request b request w)
            = (case spec_response_body response of Inl e \<Rightarrow> Raise e | Inr body \<Rightarrow> Return body)"
    if "0 < sem w" "p = server w (host b) (port b) (conns w)" "accepts p" "close_error p = None"
      and "read_prompt p = Inr (''>'', rest)" "encode_ascii (request @ [LF]) = Inr data"
      and "read_response p rest data = Inr (response, rest')"
    using that(5-7)
    by (simp add: make_request_connected [OF that(1-4)] exchange_def lift_def return_def
        raise_def r [symmetric] split: sum.splits)
  with r show ?thesis by blast
qed

theorem response_body_refines_witness:
  "0 < sem (fresh_world (prompting_peer scenario_A_response))
   \<and> read_prompt (prompting_peer scenario_A_response) = Inr (''>'', [])
   \<and> encode_ascii (''ls2 IEF001'' @ [LF]) = Inr (''ls2 IEF001'' @ [LF])
   \<and> read_response (prompting_peer scenario_A_response) [] (''ls2 IEF001'' @ [LF])
       = Inr (scenario_A_response, [])
   \<and> spec_response_body scenario_A_response = Inr (scenario_A_line @ [CR, LF])
   \<and> fst (make_request bridge0 ''ls2 IEF001'' (fresh_world (prompting_peer scenario_A_response)))
       = Return (scenario_A_line @ [CR, LF])"
proof -
  let ?p = "prompting_peer scenario_A_response"
  have h: "0 < sem (fresh_world ?p)"
    "?p = server (fresh_world ?p) (host bridge0) (port bridge0) (conns (fresh_world ?p))"
    "accepts ?p" "close_error ?p = None"
    by (simp_all add: fresh_world_def prompting_peer_def)
  have p: "read_prompt ?p = Inr (''>'', [])"
    by (simp add: read_prompt_def readuntil_def prompting_peer_def LIMIT_def)
  have e: "encode_ascii (''ls2 IEF001'' @ [LF]) = Inr (''ls2 IEF001'' @ [LF])"
    by (simp add: encode_ascii_def is_ascii_def)
  have a: "read_response ?p [] (''ls2 IEF001'' @ [LF]) = Inr (scenario_A_response, [])"
    by (simp add: read_response_def readuntil_def prompting_peer_def LIMIT_def
        scenario_A_response_def scenario_A_line_def)
  have s: "spec_response_body scenario_A_response = Inr (scenario_A_line @ [CR, LF])"
    by (simp add: spec_response_body_def spec_strip_prompt_def spec_strip_ok_def
        scenario_A_response_def scenario_A_line_def)
  show ?thesis
    using response_body_refines [of scenario_A_response "fresh_world ?p" ?p bridge0 "[]"
        "''ls2 IEF001''" "''ls2 IEF001'' @ [LF]" "[]"] h p e a s
    by simp
qed

section \<open>The mutators\<close>

text \<open>A transaction that returns has written the request and a newline, once.\<close>

lemma make_request_Return:
  assumes "make_request b request w = (Return body, w')"
  shows "trace w' = trace w @ [Acquire, Open, Write (request @ [LF]), Close, Release]
       \<and> sem w' = sem w \<and> conns w' = conns w + 1 \<and> server w' = server w"
  using assms
  by (auto simp: make_request_def exchange_def encode_ascii_def lift_def return_def raise_def
      release_def emit_def Let_def
      split: if_splits sum.splits prod.splits option.splits)

subsection \<open>The mode\<close>

lemma replace_mode:
  assumes "v \<in> set MODES"
  shows "replace (v @ '' UID'') ''UID'' uid = v @ '' '' @ uid"
  using assms by (auto simp: MODES_def replace_def)

lemma await_make_request_trace:
  assumes "0 < sem w" and "\<And>x. extends (f x)"
  shows "\<exists>evs. trace (snd (await (make_request b request) f w)) = trace w @ Acquire # evs"
proof -
  obtain r w' where m: "make_request b request w = (r, w')" by (cases "make_request b request w")
  from make_request_events [OF assms(1), of b request] m
  obtain evs where e: "trace w' = trace w @ Acquire # evs" by auto
  show ?thesis
  proof (cases r)
    case (Return x)
    from assms(2) [of x] obtain evs' where "trace (snd (f x w')) = trace w' @ evs'"
      unfolding extends_def by blast
    with m e Return show ?thesis by (simp add: await_def)
  next
    case (Raise err)
    with m e show ?thesis by (simp add: await_def)
  next
    case Blocked
    with m e show ?thesis by (simp add: await_def)
  qed
qed

text \<open>
  C6.  For every string that is not one of \<^verbatim>\<open>auto\<close>, \<^verbatim>\<open>cool\<close>, \<^verbatim>\<open>dry\<close>, \<^verbatim>\<open>fan\<close>, \<^verbatim>\<open>heat\<close>,
  \<^verbatim>\<open>set_mode\<close> raises a \<^verbatim>\<open>ValueError\<close> and leaves the world as it was: no slot is taken, no
  connection is opened, nothing is written.  \<^verbatim>\<open>turbo\<close> is such a string.  Only these
  strings are turned away: for one of the five modes \<^verbatim>\<open>set_mode\<close> runs the transaction
  for the mode and the unit identifier and then refreshes, so with a free slot its
  first event is \<^verbatim>\<open>Acquire\<close>.
\<close>

theorem set_mode_rejects:
  "(v \<notin> set MODES \<longrightarrow>
      set_mode u v w
        = (Raise (ValueError (Message
             (''Unrecognized mode '' @ v @ ''. Valid values: auto cool dry fan heat''))), w))
   \<and> set_mode u ''turbo'' w
        = (Raise (ValueError (Message
             ''Unrecognized mode turbo. Valid values: auto cool dry fan heat'')), w)
   \<and> (v \<in> set MODES \<longrightarrow>
        set_mode u v w
          = await (make_request (bridge u) (v @ '' '' @ unit_id u)) (\<lambda>r. refresh u) w)
   \<and> (v \<in> set MODES \<and> 0 < sem w \<longrightarrow>
        (\<exists>evs. trace (snd (set_mode u v w)) = trace w @ Acquire # evs))"
proof -
  have a: "set_mode u v w
        = (Raise (ValueError (Message
             (''Unrecognized mode '' @ v @ ''. Valid values: auto cool dry fan heat''))), w)"
    if "v \<notin> set MODES"
    using that by (simp add: set_mode_def raise_def MODES_def)
  have b: "set_mode u ''turbo'' w
        = (Raise (ValueError (Message
             ''Unrecognized mode turbo. Valid values: auto cool dry fan heat'')), w)"
    by (simp add: set_mode_def raise_def MODES_def)
  have c: "set_mode u v w
          = await (make_request (bridge u) (v @ '' '' @ unit_id u)) (\<lambda>r. refresh u) w"
    if "v \<in> set MODES"
    using that by (simp add: set_mode_def make_unit_request_def replace_mode)
  have d: "\<exists>evs. trace (snd (set_mode u v w)) = trace w @ Acquire # evs"
    if "v \<in> set MODES" "0 < sem w"
    unfolding c [OF that(1)]
    by (rule await_make_request_trace [OF that(2)]) (rule extends_refresh)
  from a b c d show ?thesis by blast
qed

theorem set_mode_rejects_witness:
  "''eco'' \<notin> set MODES
   \<and> set_mode unit0 ''eco'' (fresh_world silent_peer)
        = (Raise (ValueError (Message
             ''Unrecognized mode eco. Valid values: auto cool dry fan heat'')),
           fresh_world silent_peer)
   \<and> trace (snd (set_mode unit0 ''eco'' (fresh_world silent_peer))) = []
   \<and> ''cool'' \<in> set MODES \<and> 0 < sem (fresh_world silent_peer)
   \<and> (\<exists>evs. trace (snd (set_mode unit0 ''cool'' (fresh_world silent_peer))) = Acquire # evs)"
proof -
  let ?w = "fresh_world silent_peer"
  have h: "''eco'' \<notin> set MODES" "''cool'' \<in> set MODES" "0 < sem ?w" "trace ?w = []"
    by (simp_all add: MODES_def fresh_world_def)
  from set_mode_rejects [of "''eco''" unit0 ?w] h(1)
  have e: "set_mode unit0 ''eco'' ?w
        = (Raise (ValueError (Message
             (''Unrecognized mode '' @ ''eco'' @ ''. Valid values: auto cool dry fan heat''))), ?w)"
    by blast
  from set_mode_rejects [of "''cool''" unit0 ?w] h(2,3)
  have "\<exists>evs. trace (snd (set_mode unit0 ''cool'' ?w)) = trace ?w @ Acquire # evs"
    by blast
  then have c: "\<exists>evs. trace (snd (set_mode unit0 ''cool'' ?w)) = Acquire # evs"
    by (simp only: h(4) append_Nil)
  from e have e': "set_mode unit0 ''eco'' ?w
        = (Raise (ValueError (Message
             ''Unrecognized mode eco. Valid values: auto cool dry fan heat'')), ?w)"
    by simp
  from h e' c show ?thesis by (simp only: snd_conv simp_thms)
qed

subsection \<open>The swing mode\<close>

lemma SWING_MODES_code:
  assumes "v \<in> set SWING_MODES" and "getitem SWING_NAME_TO_CHAR v = Inr code"
  shows "code \<in> {''a'', ''h'', ''3'', ''4'', ''6'', ''v'', ''x''}"
  using assms
  by (auto simp: SWING_MODES_def SWING_NAME_TO_CHAR_def SWING_CHAR_TO_NAME_def getitem_def)

lemma replace_swing:
  assumes "code \<in> {''a'', ''h'', ''3'', ''4'', ''6'', ''v'', ''x''}"
  shows "replace (''swing UID '' @ code) ''UID'' uid = ''swing '' @ uid @ '' '' @ code"
  using assms by (auto simp: replace_def)

lemma getitem_SWING_MODES:
  "v \<in> set SWING_MODES \<Longrightarrow> \<exists>code. getitem SWING_NAME_TO_CHAR v = Inr code"
  by (auto simp: SWING_MODES_def SWING_NAME_TO_CHAR_def SWING_CHAR_TO_NAME_def getitem_def)

text \<open>
  C7.  Every swing name of the table has a code.  When the transaction for the command
  \<^verbatim>\<open>swing\<close>, unit identifier, code returns a body that begins with \<^verbatim>\<open>Unsupported Feature\<close>,
  \<^verbatim>\<open>set_swing\<close> raises a \<^verbatim>\<open>ValueError\<close> that names the unit and the swing mode, and the
  world is the one that this single transaction left: there is no refresh.  For a string
  that is not one of the 7 swing names it raises a \<^verbatim>\<open>ValueError\<close> and leaves the world as
  it was.
\<close>

theorem set_swing_rejects:
  "(v \<in> set SWING_MODES \<longrightarrow> (\<exists>code. getitem SWING_NAME_TO_CHAR v = Inr code))
   \<and> (v \<in> set SWING_MODES \<and> getitem SWING_NAME_TO_CHAR v = Inr code
       \<and> make_request (bridge u) (''swing '' @ unit_id u @ '' '' @ code) w = (Return return_value, w')
       \<and> startswith return_value ''Unsupported Feature''
      \<longrightarrow> set_swing u v w
            = (Raise (ValueError (Message
                 (''Unit '' @ unit_id u @ '' doesn't support swing mode '' @ v @ ''.''))), w')
        \<and> trace w' = trace w @ [Acquire, Open,
                                 Write (''swing '' @ unit_id u @ '' '' @ code @ [LF]),
                                 Close, Release])
   \<and> (v \<notin> set SWING_MODES \<longrightarrow>
        set_swing u v w
          = (Raise (ValueError (Message
               (''Unrecognized swing mode '' @ v
                  @ ''. Valid values: auto, horizontal, 30, 45, 60, vertical, stop''))), w))"
proof (intro conjI impI)
  assume "v \<in> set SWING_MODES"
  then show "\<exists>code. getitem SWING_NAME_TO_CHAR v = Inr code" by (rule getitem_SWING_MODES)
next
  assume h: "v \<in> set SWING_MODES \<and> getitem SWING_NAME_TO_CHAR v = Inr code
       \<and> make_request (bridge u) (''swing '' @ unit_id u @ '' '' @ code) w = (Return return_value, w')
       \<and> startswith return_value ''Unsupported Feature''"
  then have c: "code \<in> {''a'', ''h'', ''3'', ''4'', ''6'', ''v'', ''x''}"
    using SWING_MODES_code by blast
  from h show "set_swing u v w
            = (Raise (ValueError (Message
                 (''Unit '' @ unit_id u @ '' doesn't support swing mode '' @ v @ ''.''))), w')"
    by (simp add: set_swing_def await_def lift_def return_def raise_def make_unit_request_def
        replace_swing [OF c, simplified])
  from h make_request_Return
  show "trace w' = trace w @ [Acquire, Open,
                                 Write (''swing '' @ unit_id u @ '' '' @ code @ [LF]),
                                 Close, Release]"
    by fastforce
next
  assume "v \<notin> set SWING_MODES"
  then show "set_swing u v w
          = (Raise (ValueError (Message
               (''Unrecognized swing mode '' @ v
                  @ ''. Valid values: auto, horizontal, 30, 45, 60, vertical, stop''))), w)"
    by (simp add: set_swing_def raise_def SWING_MODES_def SWING_CHAR_TO_NAME_def)
qed

theorem set_swing_rejects_witness:
  "''vertical'' \<in> set SWING_MODES
   \<and> getitem SWING_NAME_TO_CHAR ''vertical'' = Inr ''v''
   \<and> fst (make_request (bridge unit0) (''swing '' @ unit_id unit0 @ '' '' @ ''v'')
        (fresh_world (prompting_peer unsupported_response)))
       = Return (''Unsupported Feature'' @ [CR, LF])
   \<and> startswith (''Unsupported Feature'' @ [CR, LF]) ''Unsupported Feature''
   \<and> fst (set_swing unit0 ''vertical'' (fresh_world (prompting_peer unsupported_response)))
       = Raise (ValueError (Message ''Unit IEF001 doesn't support swing mode vertical.''))
   \<and> written (snd (set_swing unit0 ''vertical'' (fresh_world (prompting_peer unsupported_response))))
       = [''swing IEF001 v'' @ [LF]]
   \<and> ''diagonal'' \<notin> set SWING_MODES
   \<and> set_swing unit0 ''diagonal'' (fresh_world silent_peer)
       = (Raise (ValueError (Message
            ''Unrecognized swing mode diagonal. Valid values: auto, horizontal, 30, 45, 60, vertical, stop'')),
          fresh_world silent_peer)"
proof -
  let ?w = "fresh_world (prompting_peer unsupported_response)"
  let ?w' = "\<lparr> sem = 3, server = (\<lambda>h n i. prompting_peer unsupported_response), conns = 1,
          trace = [Acquire, Open, Write (''swing IEF001 v'' @ [LF]), Close, Release] \<rparr>"
  have v: "''vertical'' \<in> set SWING_MODES" "''diagonal'' \<notin> set SWING_MODES"
    by (simp_all add: SWING_MODES_def SWING_CHAR_TO_NAME_def)
  have g: "getitem SWING_NAME_TO_CHAR ''vertical'' = Inr ''v''"
    by (simp add: getitem_def SWING_NAME_TO_CHAR_def SWING_CHAR_TO_NAME_def)
  have m: "make_request (bridge unit0) (''swing '' @ unit_id unit0 @ '' '' @ ''v'') ?w
             = (Return (''Unsupported Feature'' @ [CR, LF]), ?w')"
    by (simp add: make_request_def fresh_world_def prompting_peer_def bridge0_def unit0_def
        emit_def release_def exchange_def read_prompt_def read_response_def readuntil_def
        LIMIT_def encode_ascii_def is_ascii_def unsupported_response_def response_body_def
        decode_ascii_def endswith_def drop_last_def lift_def return_def raise_def Let_def)
  have s: "startswith (''Unsupported Feature'' @ [CR, LF]) ''Unsupported Feature''"
    by (simp add: startswith_def)
  have w: "written ?w' = [''swing IEF001 v'' @ [LF]]" by (simp add: written_def)
  show ?thesis
    using set_swing_rejects [of "''vertical''" "''v''" unit0 ?w
         "''Unsupported Feature'' @ [CR, LF]" ?w']
      set_swing_rejects [of "''diagonal''" "[]" unit0 "fresh_world silent_peer" "[]"
         "fresh_world silent_peer"] v g m s w
    by (simp add: unit0_def)
qed

section \<open>The bridge information\<close>

lemma re_split_colon_once_eq:
  "re_split_colon_once l
     = (if has_colon l then [fst (key_value l), snd (key_value l)] else [l])"
proof (cases "has_colon l")
  case True
  then have "dropWhile (\<lambda>c. c \<noteq> CHR '':'') l \<noteq> []"
    by (simp add: has_colon_def)
  then obtain c cs where "dropWhile (\<lambda>c. c \<noteq> CHR '':'') l = c # cs"
    by (cases "dropWhile (\<lambda>c. c \<noteq> CHR '':'') l") auto
  with True show ?thesis
    by (simp add: re_split_colon_once_def key_value_def Let_def)
next
  case False
  then have d: "dropWhile (\<lambda>c. c \<noteq> CHR '':'') l = []"
    by (auto simp: has_colon_def)
  show ?thesis
    unfolding re_split_colon_once_def Let_def d using False by simp
qed

lemma dict_update_pairs:
  "list_all has_colon ls \<Longrightarrow>
   dict_update i m (map re_split_colon_once ls) = Inr (m ++ map_of (rev (map key_value ls)))"
proof (induction ls arbitrary: i m)
  case Nil
  then show ?case by simp
next
  case (Cons l ls)
  obtain k v where kv: "key_value l = (k, v)" by (cases "key_value l")
  have "m(k \<mapsto> v) ++ map_of (rev (map key_value ls))
          = m ++ (map_of (rev (map key_value ls) @ [(k, v)]))"
    by (simp add: map_add_def fun_eq_iff split: option.splits)
  with Cons kv show ?case
    by (simp add: re_split_colon_once_eq)
qed

lemma dict_update_no_colon:
  "\<not> list_all has_colon ls \<Longrightarrow>
   \<exists>j. dict_update i m (map re_split_colon_once ls)
         = Inl (ValueError (DictUpdateSequenceLength j 1))"
proof (induction ls arbitrary: i m)
  case Nil
  then show ?case by simp
next
  case (Cons l ls)
  show ?case
  proof (cases "has_colon l")
    case True
    with Cons.prems have "\<not> list_all has_colon ls" by simp
    from Cons.IH [OF this] True show ?thesis
      by (simp add: re_split_colon_once_eq)
  next
    case False
    then show ?thesis by (simp add: re_split_colon_once_eq)
  qed
qed

lemma info_scenario_B:
  "info bridge0 (fresh_world (prompting_peer scenario_B_response))
     = (Return [''Unit'' \<mapsto> ''X'', ''Version'' \<mapsto> ''1.0''],
        \<lparr> sem = 3, server = (\<lambda>h n i. prompting_peer scenario_B_response), conns = 1,
          trace = [Acquire, Open, Write (''set'' @ [LF]), Close, Release] \<rparr>)"
  by (simp add: info_def await_def make_request_def fresh_world_def prompting_peer_def
      bridge0_def emit_def release_def exchange_def read_prompt_def read_response_def
      readuntil_def LIMIT_def encode_ascii_def is_ascii_def scenario_B_response_def
      response_body_def decode_ascii_def endswith_def drop_last_def lift_def return_def
      raise_def Let_def strip_def lstrip_def rstrip_def is_space_def split_def
      re_split_colon_once_def dict_def)

text \<open>
  C8, as the code has it.  \<^verbatim>\<open>info\<close> runs one transaction with the request \<^verbatim>\<open>set\<close>.  It
  trims the body, splits it on CRLF into lines and splits each line at its first colon,
  the whitespace around the colon removed.  When every line has a colon it returns the
  mapping from key to value in which a later line overwrites an earlier one with the same
  key; when a line has none, \<^verbatim>\<open>dict\<close> raises a \<^verbatim>\<open>ValueError\<close>.  For the response of scenario
  B the mapping is \<^verbatim>\<open>Unit\<close> to \<^verbatim>\<open>X\<close> and \<^verbatim>\<open>Version\<close> to \<^verbatim>\<open>1.0\<close>.
\<close>

theorem info_mapping:
  "(make_request b ''set'' w = (Return body, w') \<longrightarrow>
      written w' = written w @ [''set'' @ [LF]]
      \<and> (list_all has_colon (split (strip body) [CR, LF]) \<longrightarrow>
           info b w = (Return (map_of (rev (map key_value (split (strip body) [CR, LF])))), w'))
      \<and> (\<not> list_all has_colon (split (strip body) [CR, LF]) \<longrightarrow>
           (\<exists>j. info b w = (Raise (ValueError (DictUpdateSequenceLength j 1)), w'))))
   \<and> info bridge0 (fresh_world (prompting_peer scenario_B_response))
     = (Return [''Unit'' \<mapsto> ''X'', ''Version'' \<mapsto> ''1.0''],
        \<lparr> sem = 3, server = (\<lambda>h n i. prompting_peer scenario_B_response), conns = 1,
          trace = [Acquire, Open, Write (''set'' @ [LF]), Close, Release] \<rparr>)"
proof -
  have "written w' = written w @ [''set'' @ [LF]]"
    if "make_request b ''set'' w = (Return body, w')"
    using make_request_Return [OF that] by (simp add: written_def)
  moreover have "info b w = (Return (map_of (rev (map key_value (split (strip body) [CR, LF])))), w')"
    if "make_request b ''set'' w = (Return body, w')"
      and "list_all has_colon (split (strip body) [CR, LF])"
    using that
    by (simp add: info_def await_def dict_def dict_update_pairs lift_def return_def Let_def)
  moreover have "\<exists>j. info b w = (Raise (ValueError (DictUpdateSequenceLength j 1)), w')"
    if "make_request b ''set'' w = (Return body, w')"
      and "\<not> list_all has_colon (split (strip body) [CR, LF])"
  proof -
    from dict_update_no_colon [OF that(2), of 0 Map.empty]
    obtain j where "dict (map re_split_colon_once (split (strip body) [CR, LF]))
                      = Inl (ValueError (DictUpdateSequenceLength j 1))"
      by (auto simp: dict_def)
    with that(1) show ?thesis
      by (simp add: info_def await_def lift_def raise_def Let_def)
  qed
  ultimately show ?thesis using info_scenario_B by blast
qed

text \<open>
  Without the trimming the claim fails: the body of a response whose line starts with a
  space splits on CRLF into that line, whose key would keep the space, and an empty last
  line with no colon, while \<^verbatim>\<open>info\<close> returns the mapping of \<^verbatim>\<open>Unit\<close> to \<^verbatim>\<open>X\<close>.
\<close>

theorem info_untrimmed_counterexample:
  "make_request bridge0 ''set'' (fresh_world (prompting_peer indented_response))
     = (Return ('' Unit: X'' @ [CR, LF]),
        \<lparr> sem = 3, server = (\<lambda>h n i. prompting_peer indented_response), conns = 1,
          trace = [Acquire, Open, Write (''set'' @ [LF]), Close, Release] \<rparr>)
   \<and> fst (info bridge0 (fresh_world (prompting_peer indented_response)))
       = Return [''Unit'' \<mapsto> ''X'']
   \<and> map re_split_colon_once (split ('' Unit: X'' @ [CR, LF]) [CR, LF])
       = [['' Unit'', ''X''], [[]]]
   \<and> spec_info_mapping ('' Unit: X'' @ [CR, LF])
       = Inl (ValueError (DictUpdateSequenceLength 1 1))"
  by (simp add: info_def await_def make_request_def fresh_world_def prompting_peer_def
      bridge0_def emit_def release_def exchange_def read_prompt_def read_response_def
      readuntil_def LIMIT_def encode_ascii_def is_ascii_def indented_response_def
      response_body_def decode_ascii_def endswith_def drop_last_def lift_def return_def
      raise_def Let_def strip_def lstrip_def rstrip_def is_space_def split_def
      re_split_colon_once_def dict_def spec_info_mapping_def)

theorem info_mapping_witness:
  "fst (make_request bridge0 ''set'' (fresh_world (prompting_peer scenario_B_response)))
     = Return (''Unit: X'' @ [CR, LF] @ ''Version: 1.0'' @ [CR, LF])
   \<and> list_all has_colon
        (split (strip (''Unit: X'' @ [CR, LF] @ ''Version: 1.0'' @ [CR, LF])) [CR, LF])
   \<and> written (snd (make_request bridge0 ''set'' (fresh_world (prompting_peer scenario_B_response))))
       = [''set'' @ [LF]]
   \<and> fst (info bridge0 (fresh_world (prompting_peer scenario_B_response)))
       = Return (map_of [(''Version'', ''1.0''), (''Unit'', ''X'')])"
proof -
  let ?w = "fresh_world (prompting_peer scenario_B_response)"
  let ?w' = "\<lparr> sem = 3, server = (\<lambda>h n i. prompting_peer scenario_B_response), conns = 1,
          trace = [Acquire, Open, Write (''set'' @ [LF]), Close, Release] \<rparr>"
  let ?body = "''Unit: X'' @ [CR, LF] @ ''Version: 1.0'' @ [CR, LF]"
  have m: "make_request bridge0 ''set'' ?w = (Return ?body, ?w')"
    by (simp add: make_request_def fresh_world_def prompting_peer_def
      bridge0_def emit_def release_def exchange_def read_prompt_def read_response_def
      readuntil_def LIMIT_def encode_ascii_def is_ascii_def scenario_B_response_def
      response_body_def decode_ascii_def endswith_def drop_last_def lift_def return_def
      raise_def Let_def)
  have l: "split (strip ?body) [CR, LF] = [''Unit: X'', ''Version: 1.0'']"
    by (simp add: strip_def lstrip_def rstrip_def is_space_def split_def)
  have c: "list_all has_colon (split (strip ?body) [CR, LF])"
    by (simp add: strip_def lstrip_def rstrip_def is_space_def split_def has_colon_def)
  have w: "written ?w = []" by (simp add: written_def fresh_world_def)
  show ?thesis
    using info_mapping [of bridge0 ?w ?body ?w'] m c w
    by (simp add: l [simplified] key_value_def lstrip_def rstrip_def is_space_def)
qed

section \<open>The pool of three slots\<close>

lemma next_phase_effect:
  "next_phase p ev = Some p' \<Longrightarrow>
     effect ev + (if holds p' then 1 else 0) = (if holds p then 1 else 0)"
  by (cases p; cases ev) (simp_all add: holds_def)

lemma filter_update_count:
  "i < length xs \<Longrightarrow>
     int (length (filter P (xs[i := y]))) + (if P (xs ! i) then 1 else 0)
       = int (length (filter P xs)) + (if P y then 1 else 0)"
proof (induction xs arbitrary: i)
  case Nil
  then show ?case by simp
next
  case (Cons x xs)
  show ?case
  proof (cases i)
    case 0
    then show ?thesis by simp
  next
    case (Suc j)
    with Cons.prems have "j < length xs" by simp
    from Cons.IH [OF this] Suc show ?thesis by (auto split: if_splits)
  qed
qed

lemma step_holders:
  assumes "step i (v, ps) (v', ps')"
  shows "v' + int (holders ps') = v + int (holders ps)"
  using assms
proof cases
  case (step ev p')
  from filter_update_count [OF step(3), of holds p'] next_phase_effect [OF step(4)]
  show ?thesis using step(1,2) by (simp add: holders_def split: if_splits)
qed

lemma filter_holds_le:
  "length (filter connection_open ps) \<le> length (filter holds ps)"
proof (induction ps)
  case Nil
  then show ?case by simp
next
  case (Cons p ps)
  then show ?case by (auto simp: connection_open_def holds_def)
qed

lemma step_not_negative:
  assumes "step i (v, ps) (v', ps')" and "0 \<le> v"
  shows "0 \<le> v'"
  using assms
proof cases
  case (step ev p')
  with assms(2) show ?thesis by (cases ev) simp_all
qed

lemma reachable_counter:
  "reachable s \<Longrightarrow> fst s + int (holders (snd s)) = 3 \<and> 0 \<le> fst s"
proof (induction rule: reachable.induct)
  case (init n)
  then show ?case by (simp add: holders_def holds_def)
next
  case (advance s i s')
  then show ?case
    using step_holders [of i "fst s" "snd s" "fst s'" "snd s'"]
      step_not_negative [of i "fst s" "snd s" "fst s'" "snd s'"]
    by simp
qed

text \<open>
  What one transaction does, whatever its outcome, is a full run of the phases: a slot
  taken is given back, a connection opened is closed.
\<close>

lemma make_request_run:
  assumes "0 < sem w"
  shows "\<exists>evs. trace (snd (make_request b request w)) = trace w @ evs
             \<and> run Waiting evs = Some Finished"
    and "sem (snd (make_request b request w)) = sem w"
  using assms
  by (auto simp: make_request_def exchange_def lift_def return_def raise_def release_def emit_def
      Let_def split: sum.splits prod.splits option.splits)


lemma make_request_blocked: "sem w \<le> 0 \<Longrightarrow> make_request b request w = (Blocked, w)"
  by (simp add: make_request_def)

lemma run_Finished: "run Finished evs = Some p \<Longrightarrow> evs = [] \<and> p = Finished"
  by (cases evs) auto

text \<open>The phases that hold a slot are those between \<^verbatim>\<open>Acquire\<close> and \<^verbatim>\<open>Release\<close>.\<close>

lemma run_holds:
  "run p evs = Some p' \<Longrightarrow>
     holds p' = ((holds p \<or> Acquire \<in> set evs) \<and> Release \<notin> set evs)"
proof (induction evs arbitrary: p)
  case Nil
  then show ?case by simp
next
  case (Cons ev evs)
  then obtain q where q: "next_phase p ev = Some q" and r: "run q evs = Some p'"
    by (auto split: option.splits)
  from Cons.IH [OF r] q r run_Finished [of evs p'] show ?case
    by (cases p; cases ev) (auto simp: holds_def)
qed

text \<open>
  A connection that was opened and not yet closed is counted as open; the count also
  includes the connections whose \<^verbatim>\<open>wait_closed\<close> is pending.
\<close>

lemma run_connection_open:
  "run p evs = Some p' \<Longrightarrow>
     (p = Prompting \<or> p = Responding \<or> Open \<in> set evs) \<and> Close \<notin> set evs \<Longrightarrow>
     p' = Prompting \<or> p' = Responding"
proof (induction evs arbitrary: p)
  case Nil
  then show ?case by simp
next
  case (Cons ev evs)
  from Cons.prems(1) obtain q where q: "next_phase p ev = Some q" and r: "run q evs = Some p'"
    by (auto split: option.splits)
  from q Cons.prems(2) have "(q = Prompting \<or> q = Responding \<or> Open \<in> set evs) \<and> Close \<notin> set evs"
    by (cases p; cases ev) auto
  from Cons.IH [OF r this] show ?case .
qed

lemma step_enabled:
  "(\<exists>s'. step i (v, ps) s')
     = (i < length ps \<and> (\<exists>ev p'. next_phase (ps ! i) ev = Some p' \<and> admits v ev))"
proof
  assume "\<exists>s'. step i (v, ps) s'"
  then obtain s' where "step i (v, ps) s'" ..
  then show "i < length ps \<and> (\<exists>ev p'. next_phase (ps ! i) ev = Some p' \<and> admits v ev)"
    by cases blast
next
  assume "i < length ps \<and> (\<exists>ev p'. next_phase (ps ! i) ev = Some p' \<and> admits v ev)"
  then show "\<exists>s'. step i (v, ps) s'" by (blast intro: step.step)
qed

lemma Waiting_enabled:
  "(\<exists>ev p'. next_phase Waiting ev = Some p' \<and> admits v ev) = (0 < v)"
proof
  assume "\<exists>ev p'. next_phase Waiting ev = Some p' \<and> admits v ev"
  then obtain ev p' where "next_phase Waiting ev = Some p'" and "admits v ev" by blast
  then show "0 < v" by (cases ev) simp_all
next
  assume "0 < v"
  then have "next_phase Waiting Acquire = Some Connecting \<and> admits v Acquire" by simp
  then show "\<exists>ev p'. next_phase Waiting ev = Some p' \<and> admits v ev" by blast
qed

lemma holds_enabled:
  assumes "holds p"
  shows "\<exists>ev p'. next_phase p ev = Some p' \<and> admits v ev"
proof -
  from assms consider "p = Connecting" | "p = Prompting" | "p = Responding" | "p = Closing"
    by (auto simp: holds_def)
  then show ?thesis
  proof cases
    case 1
    then have "next_phase p Open = Some Prompting \<and> admits v Open" by simp
    then show ?thesis by blast
  next
    case 2
    then have "next_phase p Close = Some Closing \<and> admits v Close" by simp
    then show ?thesis by blast
  next
    case 3
    then have "next_phase p Close = Some Closing \<and> admits v Close" by simp
    then show ?thesis by blast
  next
    case 4
    then have "next_phase p Release = Some Finished \<and> admits v Release" by simp
    then show ?thesis by blast
  qed
qed

text \<open>
  C9.  In every state the pool can reach, whatever the number of transactions: at most 3
  connections are open; the counter of the semaphore is never negative, and with the
  number of slots held it adds up to 3, so no slot is lost; a waiting transaction can go
  ahead exactly when fewer than 3 slots are held, so a fourth waits until one is given
  back; and a transaction that holds a slot can always go on towards its release.  One
  transaction, on every way out (a result, a protocol error, a timeout, a failed
  connection), leaves the counter as it found it, and its events are a full run from
  waiting to finished: \<^verbatim>\<open>Acquire\<close> then \<^verbatim>\<open>Release\<close>, with \<^verbatim>\<open>Open\<close> then \<^verbatim>\<open>Close\<close> between them
  when the connection was made.  With no free slot it stays blocked.
\<close>

theorem pool_invariant:
  assumes "reachable (v, ps)"
  shows "connections ps \<le> 3 \<and> 0 \<le> v \<and> v + int (holders ps) = 3
       \<and> (i < length ps \<and> ps ! i = Waiting \<longrightarrow> ((\<exists>s'. step i (v, ps) s') = (holders ps < 3)))
       \<and> (i < length ps \<and> holds (ps ! i) \<longrightarrow> (\<exists>s'. step i (v, ps) s'))
       \<and> (0 < sem w \<longrightarrow>
            sem (snd (make_request b request w)) = sem w
            \<and> (\<exists>evs. trace (snd (make_request b request w)) = trace w @ evs
                  \<and> (evs = [Acquire, Release] \<or> evs = [Acquire, Open, Close, Release]
                       \<or> evs = [Acquire, Open, Write (request @ [LF]), Close, Release])
                  \<and> run Waiting evs = Some Finished))
       \<and> (sem w \<le> 0 \<longrightarrow> make_request b request w = (Blocked, w))"
proof -
  from reachable_counter [OF assms] have c: "v + int (holders ps) = 3" and n: "0 \<le> v"
    by simp_all
  have "connections ps \<le> holders ps"
    by (simp add: connections_def holders_def filter_holds_le)
  with c n have b: "connections ps \<le> 3" "0 \<le> v" by simp_all
  have w: "(\<exists>s'. step i (v, ps) s') = (holders ps < 3)" if "i < length ps" "ps ! i = Waiting"
  proof -
    from that have "(\<exists>s'. step i (v, ps) s') = (0 < v)"
      unfolding step_enabled using Waiting_enabled [of v] by auto
    moreover from c have "(0 < v) = (holders ps < 3)" by linarith
    ultimately show ?thesis by (simp only:)
  qed
  have h: "\<exists>s'. step i (v, ps) s'" if "i < length ps" "holds (ps ! i)"
    unfolding step_enabled using that holds_enabled [of "ps ! i" v] by simp
  have t: "\<exists>evs. trace (snd (make_request b request w)) = trace w @ evs
                  \<and> (evs = [Acquire, Release] \<or> evs = [Acquire, Open, Close, Release]
                       \<or> evs = [Acquire, Open, Write (request @ [LF]), Close, Release])
                  \<and> run Waiting evs = Some Finished" if "0 < sem w"
  proof -
    from make_request_events [OF that, of b request]
    obtain evs where e: "trace (snd (make_request b request w)) = trace w @ evs"
      and d: "evs = [Acquire, Release] \<or> evs = [Acquire, Open, Close, Release]
                       \<or> evs = [Acquire, Open, Write (request @ [LF]), Close, Release]"
      by blast
    from d have "run Waiting evs = Some Finished" by auto
    with e d show ?thesis by blast
  qed
  from b c w h t make_request_run(2) [of w b request] make_request_blocked [of w b request]
  show ?thesis by blast
qed

lemma reachable_step:
  assumes "reachable (v, ps)" and "i < length ps" and "next_phase (ps ! i) ev = Some p'"
    and "admits v ev" and "v' = v + effect ev" and "ps' = ps[i := p']"
  shows "reachable (v', ps')"
  using assms by (auto intro: reachable.advance step.step)

theorem pool_invariant_witness:
  "reachable (0, [Connecting, Prompting, Closing, Waiting])
   \<and> connections [Connecting, Prompting, Closing, Waiting] \<le> 3
   \<and> holders [Connecting, Prompting, Closing, Waiting] = 3
   \<and> (\<forall>s'. \<not> step 3 (0, [Connecting, Prompting, Closing, Waiting]) s')
   \<and> (\<exists>s'. step 2 (0, [Connecting, Prompting, Closing, Waiting]) s')"
proof -
  have "reachable (3, replicate 4 Waiting)" by (rule reachable.init)
  then have r0: "reachable (3, [Waiting, Waiting, Waiting, Waiting])"
    by (simp add: numeral_eq_Suc)
  have r1: "reachable (2, [Connecting, Waiting, Waiting, Waiting])"
    by (rule reachable_step [OF r0, of 0 Acquire]) simp_all
  have r2: "reachable (1, [Connecting, Connecting, Waiting, Waiting])"
    by (rule reachable_step [OF r1, of 1 Acquire]) simp_all
  have r3: "reachable (0, [Connecting, Connecting, Connecting, Waiting])"
    by (rule reachable_step [OF r2, of 2 Acquire]) simp_all
  have r4: "reachable (0, [Connecting, Prompting, Connecting, Waiting])"
    by (rule reachable_step [OF r3, of 1 Open]) simp_all
  have r5: "reachable (0, [Connecting, Prompting, Prompting, Waiting])"
    by (rule reachable_step [OF r4, of 2 Open]) simp_all
  have r6: "reachable (0, [Connecting, Prompting, Closing, Waiting])"
    by (rule reachable_step [OF r5, of 2 Close]) simp_all
  have h: "holders [Connecting, Prompting, Closing, Waiting] = 3"
    "holds ([Connecting, Prompting, Closing, Waiting] ! 2)"
    by (simp_all add: holders_def holds_def)
  show ?thesis
    using pool_invariant [OF r6, of 3 "fresh_world silent_peer" bridge0 "''ls2''"]
      pool_invariant [OF r6, of 2 "fresh_world silent_peer" bridge0 "''ls2''"] r6 h
    by simp
qed

section \<open>The two decimal fields\<close>

subsection \<open>Rounding to a float\<close>






subsection \<open>Fields in the bridge's shape\<close>
















subsection \<open>Fields in other shapes\<close>







end
